theory Spec2Isabelle
  imports Complex_Main
begin

section \<open>The mention store and the daily analytics trigger\<close>

text \<open>
  The schema and the trigger are the SQL of the repository's README
  (\<^verbatim>\<open>CREATE TABLE mentions\<close>, \<^verbatim>\<open>CREATE TABLE sentiment_analytics\<close>,
  \<^verbatim>\<open>update_sentiment_analytics()\<close>).  Identifiers (UUIDs) are natural numbers,
  \<^verbatim>\<open>TIMESTAMPTZ\<close> values are seconds since the epoch, a \<^verbatim>\<open>DATE\<close> is a day number.
  A \<^verbatim>\<open>NUMERIC(3,1)\<close> value is the integer number of its tenths: \<open>73\<close> stands for 7.3.
  A nullable column is an \<open>option\<close>.
\<close>

datatype sentiment_label = Positive | Negative | Neutral

record mention =
  m_id :: nat
  m_user_id :: nat
  m_social_account_id :: nat
  m_platform :: string
  m_content :: string
  m_author :: string
  m_author_handle :: "string option"
  m_post_url :: "string option"
  m_posted_at :: int
  sentiment_score :: "int option"
  sentiment_label :: "sentiment_label option"
  sentiment_reasoning :: "string option"
  engagement_count :: int

record analytics_row =
  positive_count :: nat
  negative_count :: nat
  neutral_count :: nat
  average_score :: "int option"
  total_mentions :: nat

record social_account =
  sa_id :: nat
  sa_user_id :: nat
  sa_platform :: string
  sa_account_id :: string
  access_token :: string
  token_expires_at :: "int option"
  is_active :: bool

text \<open>
  \<^verbatim>\<open>sentiment_analytics\<close> has \<^verbatim>\<open>UNIQUE(user_id, date)\<close>: it is a map from that key
  to the row's other columns.
\<close>

record database =
  social_accounts :: "social_account list"
  mentions :: "mention list"
  sentiment_analytics :: "nat \<times> int \<rightharpoonup> analytics_row"

text \<open>\<^verbatim>\<open>DATE(posted_at)\<close>: the day a timestamp falls on.\<close>

definition date_of :: "int \<Rightarrow> int" where
  "date_of ts = ts div 86400"

text \<open>
  Storing a quotient \<open>s / n\<close> (\<open>n > 0\<close>) into a \<^verbatim>\<open>NUMERIC\<close> column of fixed scale rounds
  it to the nearest unit of that scale, ties away from zero.
\<close>

definition round_div :: "int \<Rightarrow> int \<Rightarrow> int" where
  "round_div s n =
     (if 0 \<le> s then (2 * s + n) div (2 * n) else - ((2 * (- s) + n) div (2 * n)))"

text \<open>
  \<^verbatim>\<open>AVG(sentiment_score)\<close> as it is stored in \<^verbatim>\<open>average_score NUMERIC(3,1)\<close>:
  \<^verbatim>\<open>NULL\<close> over no rows, the mean rounded to one decimal otherwise.
\<close>

definition avg_numeric :: "int list \<Rightarrow> int option" where
  "avg_numeric xs =
     (if xs = [] then None else Some (round_div (sum_list xs) (int (length xs))))"

text \<open>The rows the trigger's \<^verbatim>\<open>SELECT\<close> aggregates over (its \<^verbatim>\<open>WHERE\<close> clause).\<close>

definition scored_on :: "mention list \<Rightarrow> nat \<Rightarrow> int \<Rightarrow> mention list" where
  "scored_on ms u d =
     filter (\<lambda>m. m_user_id m = u \<and> date_of (m_posted_at m) = d \<and> sentiment_score m \<noteq> None) ms"

text \<open>The aggregates of the trigger's \<^verbatim>\<open>SELECT\<close> list.\<close>

definition day_aggregate :: "mention list \<Rightarrow> nat \<Rightarrow> int \<Rightarrow> analytics_row" where
  "day_aggregate ms u d =
     (let rows = scored_on ms u d in
      \<lparr> positive_count = length (filter (\<lambda>m. sentiment_label m = Some Positive) rows),
        negative_count = length (filter (\<lambda>m. sentiment_label m = Some Negative) rows),
        neutral_count = length (filter (\<lambda>m. sentiment_label m = Some Neutral) rows),
        average_score = avg_numeric (List.map_filter sentiment_score rows),
        total_mentions = length rows \<rparr>)"

text \<open>
  The trigger's guard: \<^verbatim>\<open>NEW.sentiment_score IS NOT NULL AND (OLD.sentiment_score IS NULL
  OR NEW.sentiment_score != OLD.sentiment_score)\<close>.  On \<^verbatim>\<open>INSERT\<close> there is no \<^verbatim>\<open>OLD\<close> row.
\<close>

definition sentiment_changed :: "mention option \<Rightarrow> mention \<Rightarrow> bool" where
  "sentiment_changed OLD NEW =
     (sentiment_score NEW \<noteq> None \<and>
      (case OLD of
         None \<Rightarrow> True
       | Some old \<Rightarrow> sentiment_score old = None \<or> sentiment_score NEW \<noteq> sentiment_score old))"

text \<open>
  \<^verbatim>\<open>update_sentiment_analytics()\<close>, run \<^verbatim>\<open>AFTER INSERT OR UPDATE ... FOR EACH ROW\<close>:
  \<open>ms\<close> is the \<^verbatim>\<open>mentions\<close> table as the statement left it.  The \<^verbatim>\<open>INSERT ... ON CONFLICT
  (user_id, date) DO UPDATE\<close> overwrites every aggregated column of the day's row.
\<close>

definition update_sentiment_analytics ::
  "mention list \<Rightarrow> mention option \<Rightarrow> mention \<Rightarrow> (nat \<times> int \<rightharpoonup> analytics_row) \<Rightarrow> (nat \<times> int \<rightharpoonup> analytics_row)" where
  "update_sentiment_analytics ms OLD NEW an =
     (if sentiment_changed OLD NEW
      then an((m_user_id NEW, date_of (m_posted_at NEW)) \<mapsto>
                day_aggregate ms (m_user_id NEW) (date_of (m_posted_at NEW)))
      else an)"

text \<open>
  The statement the analysis route issues:
  \<^verbatim>\<open>.update({sentiment_score, sentiment_label, sentiment_reasoning}).eq('id', mentionId).eq('user_id', user.id)\<close>.
  Every row the filter matches is rewritten, then the trigger runs once for each of them.
\<close>

definition set_sentiment :: "int \<Rightarrow> sentiment_label \<Rightarrow> string \<Rightarrow> mention \<Rightarrow> mention" where
  "set_sentiment s l r m =
     m\<lparr>sentiment_score := Some s, sentiment_label := Some l, sentiment_reasoning := Some r\<rparr>"

definition update_mention_sentiment ::
  "database \<Rightarrow> nat \<Rightarrow> nat \<Rightarrow> int \<Rightarrow> sentiment_label \<Rightarrow> string \<Rightarrow> database" where
  "update_mention_sentiment db mid uid s l r =
     (let hit = (\<lambda>m. m_id m = mid \<and> m_user_id m = uid);
          ms' = map (\<lambda>m. if hit m then set_sentiment s l r m else m) (mentions db)
      in db\<lparr> mentions := ms',
             sentiment_analytics :=
               fold (\<lambda>old. update_sentiment_analytics ms' (Some old) (set_sentiment s l r old))
                    (filter hit (mentions db)) (sentiment_analytics db) \<rparr>)"

subsection \<open>Sequences of sentiment updates\<close>

text \<open>
  A sentiment update names the mention, the tenant issuing it and the values written:
  \<open>(mention id, user id, score, label, reasoning)\<close>.
\<close>

type_synonym sentiment_update = "nat \<times> nat \<times> int \<times> sentiment_label \<times> string"

fun apply_update :: "database \<Rightarrow> sentiment_update \<Rightarrow> database" where
  "apply_update db (mid, uid, s, l, r) = update_mention_sentiment db mid uid s l r"

definition apply_updates :: "database \<Rightarrow> sentiment_update list \<Rightarrow> database" where
  "apply_updates db us = foldl apply_update db us"

text \<open>
  The update rewrites one of tenant \<open>t\<close>'s mentions posted on day \<open>d\<close> and passes the
  trigger's guard there, so that the day's recomputation runs.
\<close>

fun fires_on :: "database \<Rightarrow> nat \<Rightarrow> int \<Rightarrow> sentiment_update \<Rightarrow> bool" where
  "fires_on db t d (mid, uid, s, l, r) =
     (uid = t \<and>
      list_ex (\<lambda>m. m_id m = mid \<and> m_user_id m = t \<and> date_of (m_posted_at m) = d \<and>
                   sentiment_changed (Some m) (set_sentiment s l r m)) (mentions db))"

fun updates_fire :: "database \<Rightarrow> nat \<Rightarrow> int \<Rightarrow> sentiment_update list \<Rightarrow> bool" where
  "updates_fire db t d [] = True"
| "updates_fire db t d (u # us) = (fires_on db t d u \<and> updates_fire (apply_update db u) t d us)"

text \<open>Every mention that has a score has a label too.\<close>

definition labelled :: "mention list \<Rightarrow> bool" where
  "labelled ms = list_all (\<lambda>m. sentiment_score m \<noteq> None \<longrightarrow> sentiment_label m \<noteq> None) ms"

text \<open>
  The exact mean of \<^verbatim>\<open>sentiment_score\<close> over the scored mentions of a tenant on a day, as
  a rational number (scores are counted in tenths).
\<close>

definition mean_score :: "mention list \<Rightarrow> nat \<Rightarrow> int \<Rightarrow> rat" where
  "mean_score ms u d =
     (let scores = List.map_filter sentiment_score (scored_on ms u d)
      in (of_int (sum_list scores) / 10) / of_nat (length scores))"


section \<open>The ingestion route\<close>

text \<open>
  \<^verbatim>\<open>POST\<close> of the ingestion route (\<^verbatim>\<open>route (1).ts\<close>).  The platform fetchers are the
  external collaborators: each is a function of the access token and the account id that
  either throws (\<open>Inl\<close>, the error's message) or returns the fetched mentions.
\<close>

record SocialMention =
  content :: string
  author :: string
  authorHandle :: "string option"
  postUrl :: "string option"
  postedAt :: int
  engagementCount :: "int option"

record IngestRequest =
  socialAccountId :: "nat option"
  platform :: string
  forceRefresh :: "bool option"

record fetchers =
  fetchInstagramMentions :: "string \<Rightarrow> string \<Rightarrow> string + SocialMention list"
  fetchFacebookMentions :: "string \<Rightarrow> string \<Rightarrow> string + SocialMention list"
  fetchTwitterMentions :: "string \<Rightarrow> string \<Rightarrow> string + SocialMention list"
  fetchLinkedInMentions :: "string \<Rightarrow> string \<Rightarrow> string + SocialMention list"

datatype ingest_response =
  IngestError nat string
| IngestFetchFailed nat string string
| IngestOk nat nat nat "mention list"

text \<open>
  \<^verbatim>\<open>.single()\<close>: the row when the query returns exactly one, \<^verbatim>\<open>null\<close> (with an error)
  when it returns none or several.
\<close>

definition single :: "'a list \<Rightarrow> 'a option" where
  "single rows = (case rows of [r] \<Rightarrow> Some r | _ \<Rightarrow> None)"

text \<open>\<^verbatim>\<open>s || null\<close> on an optional string: \<^verbatim>\<open>undefined\<close> and the empty string give \<^verbatim>\<open>null\<close>.\<close>

definition or_null :: "string option \<Rightarrow> string option" where
  "or_null s = (case s of None \<Rightarrow> None | Some t \<Rightarrow> if t = [] then None else Some t)"

text \<open>\<^verbatim>\<open>n || 0\<close> on an optional number.\<close>

definition or_zero :: "int option \<Rightarrow> int" where
  "or_zero n = (case n of None \<Rightarrow> 0 | Some k \<Rightarrow> k)"

text \<open>The duplicate check's filter: \<^verbatim>\<open>user_id, social_account_id, content, author, posted_at\<close>.\<close>

definition same_mention :: "nat \<Rightarrow> nat \<Rightarrow> SocialMention \<Rightarrow> mention \<Rightarrow> bool" where
  "same_mention uid acct m r =
     (m_user_id r = uid \<and> m_social_account_id r = acct \<and> m_content r = content m \<and>
      m_author r = author m \<and> m_posted_at r = postedAt m)"

text \<open>\<^verbatim>\<open>gen_random_uuid()\<close>: an identifier no stored mention has.\<close>

definition fresh_id :: "mention list \<Rightarrow> nat" where
  "fresh_id ms = Suc (fold max (map m_id ms) 0)"

text \<open>The row of the route's \<^verbatim>\<open>.insert({...})\<close>: the sentiment columns are left \<^verbatim>\<open>NULL\<close>.\<close>

definition mention_row :: "nat \<Rightarrow> nat \<Rightarrow> nat \<Rightarrow> string \<Rightarrow> SocialMention \<Rightarrow> mention" where
  "mention_row i uid acct pf m =
     \<lparr> m_id = i, m_user_id = uid, m_social_account_id = acct, m_platform = pf,
       m_content = content m, m_author = author m,
       m_author_handle = or_null (authorHandle m), m_post_url = or_null (postUrl m),
       m_posted_at = postedAt m,
       sentiment_score = None, sentiment_label = None, sentiment_reasoning = None,
       engagement_count = or_zero (engagementCount m) \<rparr>"

text \<open>
  \<^verbatim>\<open>INSERT INTO mentions\<close>: the row is appended and the trigger runs for it, with no
  \<^verbatim>\<open>OLD\<close> row.  The route's rows meet the table's constraints, so the insertion succeeds.
\<close>

definition insert_mention :: "database \<Rightarrow> mention \<Rightarrow> database" where
  "insert_mention db row =
     (let ms' = mentions db @ [row]
      in db\<lparr> mentions := ms',
             sentiment_analytics := update_sentiment_analytics ms' None row (sentiment_analytics db) \<rparr>)"

text \<open>
  The loop \<^verbatim>\<open>for (const mention of mentions)\<close>: the database after it, the rows inserted
  and the mentions skipped.
\<close>

fun ingest_mentions ::
  "nat \<Rightarrow> nat \<Rightarrow> string \<Rightarrow> bool \<Rightarrow> database \<Rightarrow> SocialMention list \<Rightarrow>
   database \<times> mention list \<times> SocialMention list" where
  "ingest_mentions uid acct pf force db [] = (db, [], [])"
| "ingest_mentions uid acct pf force db (m # rest) =
     (let existing = single (filter (same_mention uid acct m) (mentions db))
      in if existing \<noteq> None \<and> \<not> force
         then (case ingest_mentions uid acct pf force db rest of
                 (db', inserted, skipped) \<Rightarrow> (db', inserted, m # skipped))
         else (let row = mention_row (fresh_id (mentions db)) uid acct pf m
               in case ingest_mentions uid acct pf force (insert_mention db row) rest of
                    (db', inserted, skipped) \<Rightarrow> (db', row # inserted, skipped)))"

text \<open>The \<^verbatim>\<open>switch (platform)\<close>; \<open>None\<close> is its \<^verbatim>\<open>default\<close> branch.\<close>

definition fetch_platform ::
  "fetchers \<Rightarrow> string \<Rightarrow> social_account \<Rightarrow> (string + SocialMention list) option" where
  "fetch_platform env pf acc =
     (if pf = ''instagram'' then Some (fetchInstagramMentions env (access_token acc) (sa_account_id acc))
      else if pf = ''facebook'' then Some (fetchFacebookMentions env (access_token acc) (sa_account_id acc))
      else if pf = ''twitter'' then Some (fetchTwitterMentions env (access_token acc) (sa_account_id acc))
      else if pf = ''linkedin'' then Some (fetchLinkedInMentions env (access_token acc) (sa_account_id acc))
      else None)"

text \<open>
  The handler: \<open>now\<close> is the clock, \<open>user\<close> the authenticated user's id if there is one.
\<close>

definition ingest_POST ::
  "fetchers \<Rightarrow> int \<Rightarrow> nat option \<Rightarrow> IngestRequest \<Rightarrow> database \<Rightarrow> ingest_response \<times> database" where
  "ingest_POST env now user body db =
     (case user of
        None \<Rightarrow> (IngestError 401 ''Unauthorized'', db)
      | Some uid \<Rightarrow>
          (case socialAccountId body of
             None \<Rightarrow> (IngestError 400 ''Missing required fields: socialAccountId and platform'', db)
           | Some sid \<Rightarrow>
               if platform body = [] then
                 (IngestError 400 ''Missing required fields: socialAccountId and platform'', db)
               else
                 (case single (filter (\<lambda>a. sa_id a = sid \<and> sa_user_id a = uid) (social_accounts db)) of
                    None \<Rightarrow> (IngestError 404 ''Social account not found or access denied'', db)
                  | Some acc \<Rightarrow>
                      if \<not> is_active acc then (IngestError 400 ''Social account is not active'', db)
                      else if (case token_expires_at acc of None \<Rightarrow> False | Some e \<Rightarrow> e < now) then
                        (IngestError 401 ''Access token has expired. Please reconnect the account.'', db)
                      else
                        (case fetch_platform env (platform body) acc of
                           None \<Rightarrow> (IngestError 400 ''Unsupported platform'', db)
                         | Some (Inl msg) \<Rightarrow>
                             (IngestFetchFailed 500
                                (''Failed to fetch mentions from '' @ platform body) msg, db)
                         | Some (Inr ms) \<Rightarrow>
                             (case ingest_mentions uid sid (platform body)
                                     (case forceRefresh body of None \<Rightarrow> False | Some f \<Rightarrow> f) db ms of
                                (db', inserted, skipped) \<Rightarrow>
                                  (IngestOk (length ms) (length inserted) (length skipped) inserted, db'))))))"

text \<open>How many stored rows the duplicate check's filter finds for a fetched mention.\<close>

definition stored_copies :: "database \<Rightarrow> nat \<Rightarrow> nat \<Rightarrow> SocialMention \<Rightarrow> nat" where
  "stored_copies db uid acct m = length (filter (same_mention uid acct m) (mentions db))"

text \<open>
  What one iteration of the loop does to the database when \<^verbatim>\<open>forceRefresh\<close> is false:
  nothing when the lookup finds exactly one row, an insertion otherwise.
\<close>

definition ingest_one :: "nat \<Rightarrow> nat \<Rightarrow> string \<Rightarrow> database \<Rightarrow> SocialMention \<Rightarrow> database" where
  "ingest_one uid acct pf db m =
     (if stored_copies db uid acct m = 1 then db
      else insert_mention db (mention_row (fresh_id (mentions db)) uid acct pf m))"


section \<open>The sentiment classifier client\<close>

text \<open>
  \<^verbatim>\<open>analyzeSentimentWithClaude\<close> of the analysis route (\<^verbatim>\<open>route.ts\<close>).  A JSON value is a
  datatype; a JSON number is a rational.  The HTTP call and \<^verbatim>\<open>JSON.parse\<close> belong to the
  runtime and are parameters: the call either fails (a thrown error or a response that is not
  \<^verbatim>\<open>ok\<close>, with the error's message) or yields the text block of the reply, and the parser
  either throws (\<open>Inl\<close>) or returns the value.
\<close>

datatype json =
  JNull
| JBool bool
| JNum rat
| JStr string
| JArr "json list"
| JObj "(string \<times> json) list"

datatype api_reply = ApiError string | ApiText string

record classifier =
  api_key :: string
  call_api :: "string \<Rightarrow> api_reply"
  json_parse :: "string \<Rightarrow> string + json"

text \<open>
  The value the function returns is the parsed object itself: its three checked fields, and
  whatever the reply carried as \<^verbatim>\<open>confidence\<close>, if anything.
\<close>

record SentimentResult =
  score :: rat
  label :: sentiment_label
  reasoning :: string
  confidence :: "json option"

text \<open>\<^verbatim>\<open>String.prototype.trim\<close>, on the white space of the ASCII range.\<close>

definition white_space :: "char \<Rightarrow> bool" where
  "white_space c = (c \<in> {CHR 0x09, CHR 0x0A, CHR 0x0B, CHR 0x0C, CHR 0x0D, CHR 0x20})"

definition trim :: "string \<Rightarrow> string" where
  "trim s = rev (dropWhile white_space (rev (dropWhile white_space s)))"

definition startsWith :: "string \<Rightarrow> string \<Rightarrow> bool" where
  "startsWith s p = (take (length p) s = p)"

text \<open>The optional \<^verbatim>\<open>\n\<close> at the end of the two patterns.\<close>

fun drop_newline :: "string \<Rightarrow> string" where
  "drop_newline [] = []"
| "drop_newline (c # cs) = (if c = CHR 0x0A then cs else c # cs)"

text \<open>
  \<^verbatim>\<open>s.replace(/<pat>\n?/g, '')\<close> for a literal, non-empty \<open>pat\<close>: scanning from the left,
  every occurrence of \<open>pat\<close> is removed together with a line feed that follows it.
\<close>

function remove_all :: "string \<Rightarrow> string \<Rightarrow> string" where
  "remove_all pat [] = []"
| "remove_all pat (c # cs) =
     (if pat \<noteq> [] \<and> take (length pat) (c # cs) = pat
      then remove_all pat (drop_newline (drop (length pat) (c # cs)))
      else c # remove_all pat cs)"
  by pat_completeness auto
termination
proof (relation "measure (\<lambda>(pat, s). length s)")
  show "wf (measure (\<lambda>(pat, s). length s))" by simp
next
  fix pat :: string and c cs
  assume "pat \<noteq> [] \<and> take (length pat) (c # cs) = pat"
  then have "length (drop (length pat) (c # cs)) < length (c # cs)"
    by (cases pat) auto
  moreover have "length (drop_newline xs) \<le> length xs" for xs
    by (cases xs) auto
  ultimately have "length (drop_newline (drop (length pat) (c # cs))) < length (c # cs)"
    by (meson le_less_trans)
  then show "((pat, drop_newline (drop (length pat) (c # cs))), (pat, c # cs))
               \<in> measure (\<lambda>(pat, s). length s)"
    by simp
next
  fix pat :: string and c cs
  show "((pat, cs), (pat, c # cs)) \<in> measure (\<lambda>(pat, s). length s)" by simp
qed

text \<open>The clean-up of the reply (``remove markdown code blocks if present'').\<close>

definition clean_reply :: "string \<Rightarrow> string" where
  "clean_reply textContent =
     (let cleanedText = trim textContent
      in if startsWith cleanedText ''```json''
         then trim (remove_all ''```'' (remove_all ''```json'' cleanedText))
         else if startsWith cleanedText ''```''
         then trim (remove_all ''```'' cleanedText)
         else cleanedText)"

text \<open>
  Reading a property of the parsed value: of \<^verbatim>\<open>null\<close> it throws; of a number, a string, a
  boolean or an array the three names are \<^verbatim>\<open>undefined\<close>.
\<close>

definition properties :: "json \<Rightarrow> (string \<times> json) list option" where
  "properties j = (case j of JObj kvs \<Rightarrow> Some kvs | JNull \<Rightarrow> None | _ \<Rightarrow> Some [])"

text \<open>\<^verbatim>\<open>['positive', 'negative', 'neutral'].includes(result.label)\<close>, with the label found.\<close>

definition label_of :: "json option \<Rightarrow> sentiment_label option" where
  "label_of v =
     (case v of
        Some (JStr s) \<Rightarrow>
          (if s = ''positive'' then Some Positive
           else if s = ''negative'' then Some Negative
           else if s = ''neutral'' then Some Neutral
           else None)
      | _ \<Rightarrow> None)"

text \<open>The three strings of the label's enumeration.\<close>

fun label_name :: "sentiment_label \<Rightarrow> string" where
  "label_name Positive = ''positive''"
| "label_name Negative = ''negative''"
| "label_name Neutral = ''neutral''"

text \<open>The block ``Validate the result'' and the \<^verbatim>\<open>return\<close>.\<close>

definition validate_result :: "json \<Rightarrow> string + SentimentResult" where
  "validate_result result =
     (case properties result of
        None \<Rightarrow> Inl ''Cannot read properties of null''
      | Some kvs \<Rightarrow>
          (case map_of kvs ''score'' of
             Some (JNum s) \<Rightarrow>
               (case label_of (map_of kvs ''label'') of
                  Some l \<Rightarrow>
                    (case map_of kvs ''reasoning'' of
                       Some (JStr r) \<Rightarrow>
                         Inr \<lparr> score = s, label = l, reasoning = r,
                               confidence = map_of kvs ''confidence'' \<rparr>
                     | _ \<Rightarrow> Inl ''Invalid sentiment analysis result from Claude'')
                | None \<Rightarrow> Inl ''Invalid sentiment analysis result from Claude'')
           | _ \<Rightarrow> Inl ''Invalid sentiment analysis result from Claude''))"

definition analyzeSentimentWithClaude :: "classifier \<Rightarrow> string \<Rightarrow> string + SentimentResult" where
  "analyzeSentimentWithClaude env text =
     (if api_key env = [] then Inl ''ANTHROPIC_API_KEY is not configured''
      else
        (case call_api env text of
           ApiError msg \<Rightarrow> Inl msg
         | ApiText textContent \<Rightarrow>
             (case json_parse env (clean_reply textContent) of
                Inl msg \<Rightarrow> Inl msg
              | Inr result \<Rightarrow> validate_result result)))"

text \<open>Whether a text still holds a code fence, three backquotes in a row.\<close>

fun has_fence :: "string \<Rightarrow> bool" where
  "has_fence (a # b # c # cs) =
     ((a = CHR 0x60 \<and> b = CHR 0x60 \<and> c = CHR 0x60) \<or> has_fence (b # c # cs))"
| "has_fence cs = False"


section \<open>The analysis route\<close>

text \<open>
  \<^verbatim>\<open>POST\<close> of the analysis route (\<^verbatim>\<open>route.ts\<close>).  The handler returns its response, the
  store as it leaves it, and the ids of the mentions for which it called
  \<^verbatim>\<open>analyzeSentimentWithClaude\<close>, in order.  The pause between two classifier calls is not
  modelled.
\<close>

record AnalyzeRequest =
  mentionIds :: "nat list option"
  ad_hoc_content :: "string option"
  batchSize :: "nat option"

text \<open>
  An entry of \<^verbatim>\<open>results\<close>: a failure with its error string, a cache hit with the stored
  score, label and reasoning, or a fresh analysis with the classifier's result.
\<close>

datatype analysis_item =
  ItemFailed nat string
| ItemCached nat int "sentiment_label option" "string option"
| ItemAnalyzed nat SentimentResult

datatype analyze_response =
  AnalyzeError nat string "string option"
| ByIds (results: "analysis_item list") (analyzed: nat) (cached: nat) (failed: nat)
| SingleText SentimentResult
| NothingToAnalyze
| Batch (results: "analysis_item list") (analyzed: nat) (failed: nat) (remaining: nat)

text \<open>
  A JavaScript number stored in a \<^verbatim>\<open>NUMERIC(3,1)\<close> column: rounded to one decimal, ties
  away from zero; the statement fails when the rounded value needs more than two digits
  before the point.
\<close>

definition to_numeric_3_1 :: "rat \<Rightarrow> int option" where
  "to_numeric_3_1 x =
     (let t = (if 0 \<le> x then \<lfloor>10 * x + 1 / 2\<rfloor> else - \<lfloor>- (10 * x) + 1 / 2\<rfloor>)
      in if \<bar>t\<bar> \<le> 999 then Some t else None)"

text \<open>
  The route's \<^verbatim>\<open>.update({...}).eq('id', ...).eq('user_id', user.id)\<close>, with its
  \<^verbatim>\<open>updateError\<close> as \<open>Inl\<close>.
\<close>

definition store_sentiment :: "database \<Rightarrow> nat \<Rightarrow> nat \<Rightarrow> SentimentResult \<Rightarrow> string + database" where
  "store_sentiment db mid uid res =
     (case to_numeric_3_1 (score res) of
        None \<Rightarrow> Inl ''numeric field overflow''
      | Some s \<Rightarrow> Inr (update_mention_sentiment db mid uid s (label res) (reasoning res)))"

text \<open>
  The \<^verbatim>\<open>try\<close> block both loops share: classify, store, record the outcome.  The store's
  error object is not an \<^verbatim>\<open>Error\<close>, so its entry reads \<^verbatim>\<open>'Analysis failed'\<close>.
\<close>

definition classify_and_store ::
  "classifier \<Rightarrow> nat \<Rightarrow> database \<Rightarrow> nat \<Rightarrow> string \<Rightarrow> database \<times> analysis_item \<times> nat list" where
  "classify_and_store env uid db mid text =
     (case analyzeSentimentWithClaude env text of
        Inl msg \<Rightarrow> (db, ItemFailed mid msg, [mid])
      | Inr sentiment \<Rightarrow>
          (case store_sentiment db mid uid sentiment of
             Inl updateError \<Rightarrow> (db, ItemFailed mid ''Analysis failed'', [mid])
           | Inr db' \<Rightarrow> (db', ItemAnalyzed mid sentiment, [mid])))"

text \<open>One iteration of \<^verbatim>\<open>for (const mentionId of body.mentionIds)\<close>.\<close>

definition analyze_id ::
  "classifier \<Rightarrow> nat \<Rightarrow> database \<Rightarrow> nat \<Rightarrow> database \<times> analysis_item \<times> nat list" where
  "analyze_id env uid db mentionId =
     (case single (filter (\<lambda>m. m_id m = mentionId \<and> m_user_id m = uid) (mentions db)) of
        None \<Rightarrow> (db, ItemFailed mentionId ''Mention not found or access denied'', [])
      | Some m \<Rightarrow>
          (case sentiment_score m of
             Some s \<Rightarrow> (db, ItemCached mentionId s (sentiment_label m) (sentiment_reasoning m), [])
           | None \<Rightarrow> classify_and_store env uid db mentionId (m_content m)))"

fun analyze_ids ::
  "classifier \<Rightarrow> nat \<Rightarrow> database \<Rightarrow> nat list \<Rightarrow> database \<times> analysis_item list \<times> nat list" where
  "analyze_ids env uid db [] = (db, [], [])"
| "analyze_ids env uid db (mentionId # rest) =
     (case analyze_id env uid db mentionId of
        (db1, item, called) \<Rightarrow>
          (case analyze_ids env uid db1 rest of
             (db2, items, called') \<Rightarrow> (db2, item # items, called @ called')))"

text \<open>
  The query of the third mode:
  \<^verbatim>\<open>.select('id, content').eq('user_id', user.id).is('sentiment_score', null).limit(batchSize)\<close>.
\<close>

definition unanalyzed :: "database \<Rightarrow> nat \<Rightarrow> mention list" where
  "unanalyzed db uid = filter (\<lambda>m. m_user_id m = uid \<and> sentiment_score m = None) (mentions db)"

definition select_unanalyzed :: "database \<Rightarrow> nat \<Rightarrow> nat \<Rightarrow> mention list" where
  "select_unanalyzed db uid n = take n (unanalyzed db uid)"

text \<open>The loop \<^verbatim>\<open>for (const mention of unanalyzedMentions)\<close>.\<close>

fun analyze_batch ::
  "classifier \<Rightarrow> nat \<Rightarrow> database \<Rightarrow> mention list \<Rightarrow> database \<times> analysis_item list \<times> nat list" where
  "analyze_batch env uid db [] = (db, [], [])"
| "analyze_batch env uid db (m # rest) =
     (case classify_and_store env uid db (m_id m) (m_content m) of
        (db1, item, called) \<Rightarrow>
          (case analyze_batch env uid db1 rest of
             (db2, items, called') \<Rightarrow> (db2, item # items, called @ called')))"

text \<open>\<^verbatim>\<open>r.success\<close> and \<^verbatim>\<open>r.cached\<close> of an entry.\<close>

fun success :: "analysis_item \<Rightarrow> bool" where
  "success (ItemFailed i e) = False"
| "success (ItemCached i s l r) = True"
| "success (ItemAnalyzed i res) = True"

fun is_cached :: "analysis_item \<Rightarrow> bool" where
  "is_cached (ItemCached i s l r) = True"
| "is_cached it = False"

definition analyze_POST ::
  "classifier \<Rightarrow> nat option \<Rightarrow> AnalyzeRequest \<Rightarrow> database \<Rightarrow> analyze_response \<times> database \<times> nat list" where
  "analyze_POST env user body db =
     (case user of
        None \<Rightarrow> (AnalyzeError 401 ''Unauthorized'' None, db, [])
      | Some uid \<Rightarrow>
          if mentionIds body \<noteq> None \<and> mentionIds body \<noteq> Some [] then
            (case analyze_ids env uid db (case mentionIds body of None \<Rightarrow> [] | Some ids \<Rightarrow> ids) of
               (db', items, called) \<Rightarrow>
                 (ByIds items
                    (length (filter (\<lambda>r. success r \<and> \<not> is_cached r) items))
                    (length (filter (\<lambda>r. success r \<and> is_cached r) items))
                    (length (filter (\<lambda>r. \<not> success r) items)),
                  db', called))
          else if ad_hoc_content body \<noteq> None \<and> ad_hoc_content body \<noteq> Some [] then
            (case analyzeSentimentWithClaude env (case ad_hoc_content body of None \<Rightarrow> [] | Some c \<Rightarrow> c) of
               Inl msg \<Rightarrow> (AnalyzeError 500 ''Failed to analyze sentiment'' (Some msg), db, [])
             | Inr sentiment \<Rightarrow> (SingleText sentiment, db, []))
          else
            (let n = (case batchSize body of None \<Rightarrow> 10 | Some k \<Rightarrow> if k = 0 then 10 else k);
                 unanalyzedMentions = select_unanalyzed db uid n
             in if unanalyzedMentions = [] then (NothingToAnalyze, db, [])
                else
                  (case analyze_batch env uid db unanalyzedMentions of
                     (db', items, called) \<Rightarrow>
                       (Batch items
                          (length (filter success items))
                          (length (filter (\<lambda>r. \<not> success r) items))
                          (length unanalyzedMentions - length (filter success items)),
                        db', called))))"

text \<open>
  Two states of the \<^verbatim>\<open>mentions\<close> table, row by row: every row keeps its id and its owner,
  and a row that had a score is the same row afterwards.
\<close>

definition scored_rows_kept :: "mention list \<Rightarrow> mention list \<Rightarrow> bool" where
  "scored_rows_kept ms ms' =
     list_all2 (\<lambda>a b. m_id b = m_id a \<and> m_user_id b = m_user_id a \<and>
                      (sentiment_score a \<noteq> None \<longrightarrow> b = a)) ms ms'"

text \<open>An entry that is a fresh analysis carrying a sentiment, or a failure carrying an error string.\<close>

definition fresh_or_failed :: "analysis_item \<Rightarrow> bool" where
  "fresh_or_failed it = ((\<exists>i res. it = ItemAnalyzed i res) \<or> (\<exists>i e. it = ItemFailed i e))"


section \<open>The scheduling route\<close>

text \<open>
  \<^verbatim>\<open>POST\<close>, \<^verbatim>\<open>PATCH\<close> and \<^verbatim>\<open>DELETE\<close> of the scheduling route, over the tables of the
  business schema (\<^verbatim>\<open>businesses\<close>, \<^verbatim>\<open>social_accounts\<close>, \<^verbatim>\<open>generated_posts\<close>,
  \<^verbatim>\<open>scheduled_posts\<close>).  A \<^verbatim>\<open>Date\<close> is a number of milliseconds, or \<open>None\<close> for an invalid
  date.
\<close>

datatype subscription_state = Active | Inactive | Trialing | PastDue | Canceled

datatype tier = Starter | Professional

datatype post_status = Scheduled | Published | Failed | Cancelled

datatype generated_status = Draft | GenScheduled | GenPublished

record business =
  b_id :: nat
  b_user_id :: nat
  subscription_status :: "subscription_state option"
  subscription_tier :: "tier option"

record connected_account =
  ca_id :: nat
  ca_business_id :: nat
  ca_platform :: string
  ca_is_active :: bool

record generated_post =
  gp_id :: nat
  gp_business_id :: nat
  gp_platform :: string
  gp_content :: string
  gp_hashtags :: "string list option"
  gp_status :: generated_status
  scheduled_post_id :: "nat option"

record scheduled_post =
  sp_id :: nat
  sp_business_id :: nat
  sp_social_account_id :: nat
  sp_platform :: string
  sp_content :: "string option"
  sp_hashtags :: "string list"
  image_url :: "string option"
  scheduled_time :: int
  sp_status :: post_status
  sp_created_at :: int

record scheduler_db =
  businesses :: "business list"
  connected_accounts :: "connected_account list"
  generated_posts :: "generated_post list"
  scheduled_posts :: "scheduled_post list"

record ScheduleRequest =
  postId :: "nat option"
  sr_content :: "string option"
  sr_platform :: string
  scheduledTime :: "int option"
  hashtags :: "string list option"
  imageUrl :: "string option"

datatype schedule_response =
  ScheduleError nat string
| LimitReached nat nat nat "tier option"
| PostScheduled scheduled_post
| PostUpdated scheduled_post
| PostCancelled

text \<open>The HTTP status of a response.\<close>

fun status_code :: "schedule_response \<Rightarrow> nat" where
  "status_code (ScheduleError code msg) = code"
| "status_code (LimitReached code n limit t) = code"
| "status_code (PostScheduled p) = 200"
| "status_code (PostUpdated p) = 200"
| "status_code PostCancelled = 200"

text \<open>\<^verbatim>\<open>tierLimits[business.subscription_tier] || 0\<close> of the scheduling route.\<close>

definition schedule_limit :: "tier option \<Rightarrow> nat" where
  "schedule_limit t = (case t of Some Starter \<Rightarrow> 30 | Some Professional \<Rightarrow> 100 | None \<Rightarrow> 0)"

text \<open>The tenant's rows with \<^verbatim>\<open>status = 'scheduled'\<close>, and their number.\<close>

definition scheduled_count :: "scheduler_db \<Rightarrow> nat \<Rightarrow> nat" where
  "scheduled_count db b =
     length (filter (\<lambda>p. sp_business_id p = b \<and> sp_status p = Scheduled) (scheduled_posts db))"

text \<open>An identifier no scheduled post has.\<close>

definition fresh_post_id :: "scheduled_post list \<Rightarrow> nat" where
  "fresh_post_id ps = Suc (fold max (map sp_id ps) 0)"

text \<open>\<^verbatim>\<open>!content\<close>, \<^verbatim>\<open>!postId\<close>: an absent or empty string is falsy.\<close>

definition given :: "string option \<Rightarrow> bool" where
  "given s = (case s of None \<Rightarrow> False | Some t \<Rightarrow> t \<noteq> [])"

text \<open>\<^verbatim>\<open>subscription_status !== 'active' && subscription_status !== 'trialing'\<close>, negated.\<close>

definition subscribed :: "business \<Rightarrow> bool" where
  "subscribed b = (subscription_status b = Some Active \<or> subscription_status b = Some Trialing)"

text \<open>
  The end of \<^verbatim>\<open>POST\<close>, from the check of the tier's limit on: the insertion, and the update
  of the generated post the request names.  \<^verbatim>\<open>toISOString()\<close> throws on an invalid date, which
  the handler's \<^verbatim>\<open>catch\<close> turns into the response 500.
\<close>

definition check_limit_and_insert ::
  "int \<Rightarrow> ScheduleRequest \<Rightarrow> business \<Rightarrow> connected_account \<Rightarrow> string option \<Rightarrow> string list \<Rightarrow>
   scheduler_db \<Rightarrow> schedule_response \<times> scheduler_db" where
  "check_limit_and_insert now body biz socialAccount postContent postHashtags db =
     (let scheduledCount = scheduled_count db (b_id biz);
          limit = schedule_limit (subscription_tier biz)
      in if scheduledCount \<ge> limit then
           (LimitReached 429 scheduledCount limit (subscription_tier biz), db)
         else
           (case scheduledTime body of
              None \<Rightarrow> (ScheduleError 500 ''Failed to schedule post'', db)
            | Some t \<Rightarrow>
                (let scheduledPost =
                       \<lparr> sp_id = fresh_post_id (scheduled_posts db), sp_business_id = b_id biz,
                         sp_social_account_id = ca_id socialAccount, sp_platform = sr_platform body,
                         sp_content = postContent, sp_hashtags = postHashtags,
                         image_url = imageUrl body, scheduled_time = t, sp_status = Scheduled,
                         sp_created_at = now \<rparr>;
                     db1 = db\<lparr> scheduled_posts := scheduled_posts db @ [scheduledPost] \<rparr>;
                     db2 = (case postId body of
                              None \<Rightarrow> db1
                            | Some pid \<Rightarrow>
                                db1\<lparr> generated_posts :=
                                       map (\<lambda>g. if gp_id g = pid
                                                 then g\<lparr> gp_status := GenScheduled,
                                                         scheduled_post_id := Some (sp_id scheduledPost) \<rparr>
                                                 else g)
                                           (generated_posts db1) \<rparr>)
                 in (PostScheduled scheduledPost, db2))))"

text \<open>\<^verbatim>\<open>POST\<close>: \<open>now\<close> is the clock, \<open>user\<close> the authenticated user's id if there is one.\<close>

definition schedule_POST ::
  "int \<Rightarrow> nat option \<Rightarrow> ScheduleRequest \<Rightarrow> scheduler_db \<Rightarrow> schedule_response \<times> scheduler_db" where
  "schedule_POST now user body db =
     (case user of
        None \<Rightarrow> (ScheduleError 401 ''Unauthorized'', db)
      | Some uid \<Rightarrow>
          if \<not> given (sr_content body) \<and> postId body = None then
            (ScheduleError 400 ''Either postId or content is required'', db)
          else
            (case single (filter (\<lambda>b. b_user_id b = uid) (businesses db)) of
               None \<Rightarrow> (ScheduleError 404 ''No business profile found'', db)
             | Some biz \<Rightarrow>
                 if \<not> subscribed biz then (ScheduleError 403 ''Active subscription required'', db)
                 else
                   (case single (filter (\<lambda>a. ca_business_id a = b_id biz \<and>
                                             ca_platform a = sr_platform body \<and> ca_is_active a)
                                        (connected_accounts db)) of
                      None \<Rightarrow>
                        (ScheduleError 400 (''No active '' @ sr_platform body @ '' account connected''), db)
                    | Some socialAccount \<Rightarrow>
                        if (case scheduledTime body of None \<Rightarrow> False | Some t \<Rightarrow> t \<le> now) then
                          (ScheduleError 400 ''Scheduled time must be in the future'', db)
                        else
                          (case postId body of
                             None \<Rightarrow>
                               check_limit_and_insert now body biz socialAccount (sr_content body)
                                 (case hashtags body of None \<Rightarrow> [] | Some hs \<Rightarrow> hs) db
                           | Some pid \<Rightarrow>
                               (case single (filter (\<lambda>g. gp_id g = pid \<and> gp_business_id g = b_id biz)
                                                    (generated_posts db)) of
                                  None \<Rightarrow> (ScheduleError 404 ''Generated post not found'', db)
                                | Some generatedPost \<Rightarrow>
                                    check_limit_and_insert now body biz socialAccount
                                      (Some (gp_content generatedPost))
                                      (case gp_hashtags generatedPost of None \<Rightarrow> [] | Some hs \<Rightarrow> hs)
                                      db)))))"

text \<open>
  The body of \<^verbatim>\<open>PATCH\<close>: a field that is absent is \<open>None\<close>; \<^verbatim>\<open>scheduledTime\<close>, when
  given, is the date it parses to.
\<close>

record UpdateRequest =
  new_scheduledTime :: "int option option"
  new_content :: "string option"
  new_hashtags :: "string list option"
  new_imageUrl :: "string option option"

definition apply_update_data :: "UpdateRequest \<Rightarrow> scheduled_post \<Rightarrow> scheduled_post" where
  "apply_update_data body p =
     p\<lparr> scheduled_time := (case new_scheduledTime body of Some (Some t) \<Rightarrow> t | _ \<Rightarrow> scheduled_time p),
        sp_content := (if given (new_content body) then new_content body else sp_content p),
        sp_hashtags := (case new_hashtags body of None \<Rightarrow> sp_hashtags p | Some hs \<Rightarrow> hs),
        image_url := (case new_imageUrl body of None \<Rightarrow> image_url p | Some u \<Rightarrow> u) \<rparr>"

definition schedule_PATCH ::
  "nat option \<Rightarrow> nat option \<Rightarrow> UpdateRequest \<Rightarrow> scheduler_db \<Rightarrow> schedule_response \<times> scheduler_db" where
  "schedule_PATCH user post_id body db =
     (case user of
        None \<Rightarrow> (ScheduleError 401 ''Unauthorized'', db)
      | Some uid \<Rightarrow>
          (case post_id of
             None \<Rightarrow> (ScheduleError 400 ''Post ID required'', db)
           | Some pid \<Rightarrow>
               (case single (filter (\<lambda>b. b_user_id b = uid) (businesses db)) of
                  None \<Rightarrow> (ScheduleError 404 ''No business profile found'', db)
                | Some biz \<Rightarrow>
                    (case single (filter (\<lambda>p. sp_id p = pid \<and> sp_business_id p = b_id biz)
                                         (scheduled_posts db)) of
                       None \<Rightarrow> (ScheduleError 404 ''Scheduled post not found'', db)
                     | Some existingPost \<Rightarrow>
                         if new_scheduledTime body = Some None then
                           (ScheduleError 500 ''Failed to update scheduled post'', db)
                         else
                           (let db' = db\<lparr> scheduled_posts :=
                                            map (\<lambda>p. if sp_id p = pid then apply_update_data body p else p)
                                                (scheduled_posts db) \<rparr>
                            in case single (filter (\<lambda>p. sp_id p = pid) (scheduled_posts db')) of
                                 None \<Rightarrow> (ScheduleError 500 ''Failed to update scheduled post'', db')
                               | Some updatedPost \<Rightarrow> (PostUpdated updatedPost, db'))))))"

text \<open>
  \<^verbatim>\<open>DELETE\<close>: ``update status to cancelled instead of deleting''.  The statement filters on
  the post's id and the tenant's business, and on nothing else.
\<close>

definition schedule_DELETE ::
  "nat option \<Rightarrow> nat option \<Rightarrow> scheduler_db \<Rightarrow> schedule_response \<times> scheduler_db" where
  "schedule_DELETE user post_id db =
     (case user of
        None \<Rightarrow> (ScheduleError 401 ''Unauthorized'', db)
      | Some uid \<Rightarrow>
          (case post_id of
             None \<Rightarrow> (ScheduleError 400 ''Post ID required'', db)
           | Some pid \<Rightarrow>
               (case single (filter (\<lambda>b. b_user_id b = uid) (businesses db)) of
                  None \<Rightarrow> (ScheduleError 404 ''No business profile found'', db)
                | Some biz \<Rightarrow>
                    (PostCancelled,
                     db\<lparr> scheduled_posts :=
                          map (\<lambda>p. if sp_id p = pid \<and> sp_business_id p = b_id biz
                                    then p\<lparr> sp_status := Cancelled \<rparr> else p)
                              (scheduled_posts db) \<rparr>))))"

text \<open>
  The checks of \<^verbatim>\<open>POST\<close> that come before the validation of the scheduled time: the user
  is authenticated, a content or a post id is given, the user has one business with an
  active or trialing subscription, and one active account of the platform is connected.
\<close>

definition reaches_time_check :: "nat option \<Rightarrow> ScheduleRequest \<Rightarrow> scheduler_db \<Rightarrow> bool" where
  "reaches_time_check user body db =
     (case user of
        None \<Rightarrow> False
      | Some uid \<Rightarrow>
          (given (sr_content body) \<or> postId body \<noteq> None) \<and>
          (case single (filter (\<lambda>b. b_user_id b = uid) (businesses db)) of
             None \<Rightarrow> False
           | Some biz \<Rightarrow>
               subscribed biz \<and>
               single (filter (\<lambda>a. ca_business_id a = b_id biz \<and> ca_platform a = sr_platform body \<and>
                                   ca_is_active a) (connected_accounts db)) \<noteq> None))"

text \<open>
  Two states of \<^verbatim>\<open>scheduled_posts\<close>, row by row: each row keeps its id and its owner, and
  its status is what it was or \<^verbatim>\<open>cancelled\<close>.
\<close>

definition status_kept_or_cancelled :: "scheduled_post list \<Rightarrow> scheduled_post list \<Rightarrow> bool" where
  "status_kept_or_cancelled ps qs =
     list_all2 (\<lambda>p q. sp_id q = sp_id p \<and> sp_business_id q = sp_business_id p \<and>
                      (sp_status q = sp_status p \<or> sp_status q = Cancelled)) ps qs"


section \<open>The content generation route\<close>

text \<open>
  \<^verbatim>\<open>POST\<close> of the generation route.  The collaborators are parameters: the \<^verbatim>\<open>businesses\<close>
  table, the query for the month's \<^verbatim>\<open>api_usage\<close> row of a business (its
  \<^verbatim>\<open>posts_generated\<close>, if the query returns a single row), the model
  (\<^verbatim>\<open>anthropic.messages.create\<close>, which throws or yields the text of the reply),
  \<^verbatim>\<open>JSON.parse\<close>, and whether the store accepts the insertion of the drafts.  The handler
  returns its response and the calls and writes it made, in order.
\<close>

record GenerateRequest =
  industry :: string
  customIndustry :: "string option"
  postCount :: "int option"
  g_platform :: "string option"
  tone :: "string option"
  includeHashtags :: "bool option"
  includeCTA :: "bool option"

record industry_info =
  description :: string
  info_keywords :: "string list"
  info_tone :: string
  commonHashtags :: "string list"

definition industryPresets :: "string \<Rightarrow> industry_info option" where
  "industryPresets name =
     (if name = ''beauty'' then
        Some \<lparr> description = ''Beauty, skincare, cosmetics, and wellness'',
               info_keywords = [''skincare'', ''beauty'', ''glow'', ''self-care'', ''makeup'', ''wellness''],
               info_tone = ''inspirational and empowering'',
               commonHashtags = [''#BeautyTips'', ''#SkincareRoutine'', ''#SelfCare'', ''#GlowingSkin'',
                                 ''#BeautyAddict''] \<rparr>
      else if name = ''fitness'' then
        Some \<lparr> description = ''Fitness, health, workouts, and nutrition'',
               info_keywords = [''fitness'', ''workout'', ''health'', ''nutrition'', ''strength'', ''wellness''],
               info_tone = ''motivational and energetic'',
               commonHashtags = [''#FitnessMotivation'', ''#WorkoutRoutine'', ''#HealthyLiving'',
                                 ''#FitnessGoals'', ''#StayActive''] \<rparr>
      else if name = ''legal'' then
        Some \<lparr> description = ''Legal services, law firm, attorney services'',
               info_keywords = [''legal'', ''law'', ''attorney'', ''rights'', ''justice'', ''consultation''],
               info_tone = ''professional and trustworthy'',
               commonHashtags = [''#LegalAdvice'', ''#KnowYourRights'', ''#LawFirm'', ''#LegalServices'',
                                 ''#JusticeMatters''] \<rparr>
      else if name = ''homeware'' then
        Some \<lparr> description = ''Home decor, furniture, interior design, and home improvement'',
               info_keywords = [''home'', ''decor'', ''interior'', ''design'', ''furniture'', ''cozy''],
               info_tone = ''warm and inviting'',
               commonHashtags = [''#HomeDecor'', ''#InteriorDesign'', ''#HomeInspiration'', ''#CozyHome'',
                                 ''#DecorIdeas''] \<rparr>
      else None)"

text \<open>The values the prompt's template interpolates; the prompt is a function of them.\<close>

record generation_prompt =
  p_postCount :: int
  p_platform :: string
  p_tone :: string
  p_includeHashtags :: bool
  p_includeCTA :: bool
  p_industry :: industry_info

text \<open>A post as the handler reads it from the reply: unchecked JSON values.\<close>

record GeneratedPost =
  post_index :: nat
  post_content :: "json option"
  post_hashtags :: json
  post_cta :: "json option"
  estimatedEngagement :: json
  bestTimeToPost :: json
  imagePrompt :: "json option"

text \<open>A row of \<^verbatim>\<open>postsToSave\<close>.\<close>

record draft_row =
  dr_business_id :: nat
  dr_platform :: string
  dr_content :: "json option"
  dr_hashtags :: json
  dr_cta :: "json option"
  dr_image_prompt :: "json option"
  dr_best_time_to_post :: json
  dr_estimated_engagement :: json
  dr_status :: generated_status
  dr_generated_at :: int

record generator =
  gen_businesses :: "business list"
  month_usage :: "nat \<Rightarrow> int option"
  create_message :: "generation_prompt \<Rightarrow> string + string"
  parse_reply :: "string \<Rightarrow> string + json"
  insert_accepted :: "draft_row list \<Rightarrow> bool"

datatype effect =
  LlmCall generation_prompt
| InsertPosts "draft_row list"
| UpsertUsage nat int int

datatype generate_response =
  GenerateError nat string
| QuotaExceeded nat int int "tier option"
| GenerateFailed nat string string
| Generated (posts: "GeneratedPost list") (savedPosts: "draft_row list option")
            (usage_current: int) (usage_limit: int) (usage_remaining: int)

text \<open>\<^verbatim>\<open>tierLimits[business.subscription_tier] || 0\<close> of the generation route.\<close>

definition generation_limit :: "tier option \<Rightarrow> int" where
  "generation_limit t = (case t of Some Starter \<Rightarrow> 50 | Some Professional \<Rightarrow> 200 | None \<Rightarrow> 0)"

text \<open>Truthiness of a JSON value, and \<^verbatim>\<open>v || d\<close> on a property that may be absent.\<close>

definition truthy :: "json \<Rightarrow> bool" where
  "truthy j =
     (case j of JNull \<Rightarrow> False | JBool b \<Rightarrow> b | JNum n \<Rightarrow> n \<noteq> 0 | JStr s \<Rightarrow> s \<noteq> []
      | JArr xs \<Rightarrow> True | JObj kvs \<Rightarrow> True)"

definition or_else :: "json option \<Rightarrow> json \<Rightarrow> json" where
  "or_else v d = (case v of None \<Rightarrow> d | Some j \<Rightarrow> if truthy j then j else d)"

text \<open>
  The callback of \<^verbatim>\<open>response.posts.map\<close>; reading a property of \<^verbatim>\<open>null\<close> throws (\<open>None\<close>).
\<close>

definition transform_post :: "nat \<Rightarrow> json \<Rightarrow> GeneratedPost option" where
  "transform_post index post =
     (case properties post of
        None \<Rightarrow> None
      | Some kvs \<Rightarrow>
          Some \<lparr> post_index = index,
                 post_content = map_of kvs ''content'',
                 post_hashtags = or_else (map_of kvs ''hashtags'') (JArr []),
                 post_cta = map_of kvs ''cta'',
                 estimatedEngagement = or_else (map_of kvs ''estimatedEngagement'') (JStr ''medium''),
                 bestTimeToPost = or_else (map_of kvs ''bestTimeToPost'') (JStr ''afternoon''),
                 imagePrompt = map_of kvs ''imagePrompt'' \<rparr>)"

fun transform_posts :: "nat \<Rightarrow> json list \<Rightarrow> GeneratedPost list option" where
  "transform_posts index [] = Some []"
| "transform_posts index (post # rest) =
     (case transform_post index post of
        None \<Rightarrow> None
      | Some p \<Rightarrow> (case transform_posts (Suc index) rest of None \<Rightarrow> None | Some ps \<Rightarrow> Some (p # ps)))"

text \<open>\<^verbatim>\<open>response.posts\<close> when it is an array; anything else makes \<^verbatim>\<open>.map\<close> throw.\<close>

definition posts_of :: "json \<Rightarrow> json list option" where
  "posts_of response =
     (case response of
        JObj kvs \<Rightarrow> (case map_of kvs ''posts'' of Some (JArr ps) \<Rightarrow> Some ps | _ \<Rightarrow> None)
      | _ \<Rightarrow> None)"

definition post_to_save :: "nat \<Rightarrow> string \<Rightarrow> int \<Rightarrow> GeneratedPost \<Rightarrow> draft_row" where
  "post_to_save b pf now post =
     \<lparr> dr_business_id = b, dr_platform = pf, dr_content = post_content post,
       dr_hashtags = post_hashtags post, dr_cta = post_cta post,
       dr_image_prompt = imagePrompt post, dr_best_time_to_post = bestTimeToPost post,
       dr_estimated_engagement = estimatedEngagement post, dr_status = Draft,
       dr_generated_at = now \<rparr>"

text \<open>
  \<^verbatim>\<open>industry === 'custom' && customIndustry ? {...} : industryPresets[industry]\<close>; \<open>None\<close>
  is \<^verbatim>\<open>undefined\<close>, on which the prompt's template throws.
\<close>

definition industry_of :: "GenerateRequest \<Rightarrow> string \<Rightarrow> industry_info option" where
  "industry_of body tn =
     (if industry body = ''custom'' \<and> given (customIndustry body)
      then Some \<lparr> description = (case customIndustry body of None \<Rightarrow> [] | Some d \<Rightarrow> d),
                  info_keywords = [], info_tone = tn, commonHashtags = [] \<rparr>
      else industryPresets (industry body))"

text \<open>The destructuring defaults of the request.\<close>

definition requested_count :: "GenerateRequest \<Rightarrow> int" where
  "requested_count body = (case postCount body of None \<Rightarrow> 7 | Some n \<Rightarrow> n)"

definition requested_platform :: "GenerateRequest \<Rightarrow> string" where
  "requested_platform body = (case g_platform body of None \<Rightarrow> ''instagram'' | Some p \<Rightarrow> p)"

definition requested_tone :: "GenerateRequest \<Rightarrow> string" where
  "requested_tone body = (case tone body of None \<Rightarrow> ''professional'' | Some t \<Rightarrow> t)"

text \<open>The prompt sent to the model, as the values its template interpolates.\<close>

definition build_prompt :: "GenerateRequest \<Rightarrow> industry_info \<Rightarrow> generation_prompt" where
  "build_prompt body info =
     \<lparr> p_postCount = requested_count body, p_platform = requested_platform body,
       p_tone = requested_tone body,
       p_includeHashtags = (case includeHashtags body of None \<Rightarrow> True | Some b \<Rightarrow> b),
       p_includeCTA = (case includeCTA body of None \<Rightarrow> True | Some b \<Rightarrow> b),
       p_industry = info \<rparr>"

text \<open>
  The handler from the call of the model on: everything that throws here ends in the
  response 500 of the handler's \<^verbatim>\<open>catch\<close>, with the effects made so far.
\<close>

definition call_and_save ::
  "generator \<Rightarrow> int \<Rightarrow> GenerateRequest \<Rightarrow> business \<Rightarrow> int \<Rightarrow> int \<Rightarrow> industry_info \<Rightarrow>
   generate_response \<times> effect list" where
  "call_and_save env now body biz currentUsage limit info =
     (case create_message env (build_prompt body info) of
        Inl msg \<Rightarrow>
          (GenerateFailed 500 ''Failed to generate content'' msg, [LlmCall (build_prompt body info)])
      | Inr textContent \<Rightarrow>
          (case parse_reply env (clean_reply textContent) of
             Inl msg \<Rightarrow>
               (GenerateFailed 500 ''Failed to generate content'' msg,
                [LlmCall (build_prompt body info)])
           | Inr response \<Rightarrow>
               (case posts_of response of
                  None \<Rightarrow>
                    (GenerateFailed 500 ''Failed to generate content'' ''Cannot read properties'',
                     [LlmCall (build_prompt body info)])
                | Some ps \<Rightarrow>
                    (case transform_posts 0 ps of
                       None \<Rightarrow>
                         (GenerateFailed 500 ''Failed to generate content'' ''Cannot read properties'',
                          [LlmCall (build_prompt body info)])
                     | Some generatedPosts \<Rightarrow>
                         (let postsToSave =
                                map (post_to_save (b_id biz) (requested_platform body) now)
                                    generatedPosts;
                              saved = (if insert_accepted env postsToSave
                                       then Some postsToSave else None)
                          in (Generated generatedPosts saved
                                (currentUsage + requested_count body) limit
                                (limit - (currentUsage + requested_count body)),
                              [LlmCall (build_prompt body info), InsertPosts postsToSave,
                               UpsertUsage (b_id biz) (currentUsage + requested_count body)
                                 now]))))))"

definition generate_POST ::
  "generator \<Rightarrow> int \<Rightarrow> nat option \<Rightarrow> GenerateRequest \<Rightarrow> generate_response \<times> effect list" where
  "generate_POST env now user body =
     (case user of
        None \<Rightarrow> (GenerateError 401 ''Unauthorized'', [])
      | Some uid \<Rightarrow>
          (case single (filter (\<lambda>b. b_user_id b = uid) (gen_businesses env)) of
             None \<Rightarrow> (GenerateError 404 ''No business profile found'', [])
           | Some biz \<Rightarrow>
               if \<not> subscribed biz then (GenerateError 403 ''Active subscription required'', [])
               else
                 (let currentUsage = or_zero (month_usage env (b_id biz));
                      limit = generation_limit (subscription_tier biz)
                  in if currentUsage + requested_count body > limit then
                       (QuotaExceeded 429 currentUsage limit (subscription_tier biz), [])
                     else
                       (case industry_of body (requested_tone body) of
                          None \<Rightarrow>
                            (GenerateFailed 500 ''Failed to generate content''
                               ''Cannot read properties of undefined'', [])
                        | Some info \<Rightarrow> call_and_save env now body biz currentUsage limit info))))"

text \<open>The calls of the model among the effects.\<close>

fun is_llm_call :: "effect \<Rightarrow> bool" where
  "is_llm_call (LlmCall p) = True"
| "is_llm_call e = False"


section \<open>Scenarios\<close>

text \<open>Concrete stores and collaborators on which the theorems below are instantiated.\<close>

definition praise :: SocialMention where
  "praise = \<lparr> content = ''Great product'', author = ''ana'', authorHandle = Some ''@ana'',
              postUrl = None, postedAt = 3600, engagementCount = Some 15 \<rparr>"

definition thanks :: SocialMention where
  "thanks = \<lparr> content = ''Thanks a lot'', author = ''ben'', authorHandle = None,
              postUrl = Some ''https://example.org/p/2'', postedAt = 7200, engagementCount = None \<rparr>"

definition query :: SocialMention where
  "query = \<lparr> content = ''Is it in stock'', author = ''cy'', authorHandle = None,
             postUrl = None, postedAt = 9000, engagementCount = Some 2 \<rparr>"

definition acme_account :: social_account where
  "acme_account = \<lparr> sa_id = 1, sa_user_id = 1, sa_platform = ''twitter'', sa_account_id = ''acme'',
                    access_token = ''token'', token_expires_at = None, is_active = True \<rparr>"

definition empty_db :: database where
  "empty_db = \<lparr> social_accounts = [acme_account], mentions = [], sentiment_analytics = Map.empty \<rparr>"

definition three_mentions_db :: database where
  "three_mentions_db =
     \<lparr> social_accounts = [acme_account],
       mentions = [mention_row 1 1 1 ''twitter'' praise, mention_row 2 1 1 ''twitter'' thanks,
                   mention_row 3 1 1 ''twitter'' query],
       sentiment_analytics = Map.empty \<rparr>"

definition three_updates :: "sentiment_update list" where
  "three_updates = [(1, 1, 70, Positive, ''warm''), (2, 1, 70, Positive, ''kind''),
                    (3, 1, 80, Neutral, ''a question'')]"

definition mock_fetchers :: fetchers where
  "mock_fetchers =
     \<lparr> fetchInstagramMentions = (\<lambda>token account. Inr [praise]),
       fetchFacebookMentions = (\<lambda>token account. Inr [thanks]),
       fetchTwitterMentions = (\<lambda>token account. Inr [praise, thanks]),
       fetchLinkedInMentions = (\<lambda>token account. Inl ''LinkedIn is unreachable'') \<rparr>"

definition twitter_request :: IngestRequest where
  "twitter_request = \<lparr> socialAccountId = Some 1, platform = ''twitter'', forceRefresh = None \<rparr>"

text \<open>Replies of the model, as text and as \<^verbatim>\<open>JSON.parse\<close> reads them.\<close>

definition strict_reply_json :: string where
  \<open>strict_reply_json =
     ''{"score": 8.5, "label": "positive", "reasoning": "warm words", "confidence": 0.9}''\<close>

definition strict_reply_value :: json where
  "strict_reply_value =
     JObj [(''score'', JNum (17 / 2)), (''label'', JStr ''positive''),
           (''reasoning'', JStr ''warm words''), (''confidence'', JNum (9 / 10))]"

definition loose_reply_json :: string where
  \<open>loose_reply_json = ''{"score": 42, "label": "positive", "reasoning": "ok"}''\<close>

definition loose_reply_value :: json where
  "loose_reply_value =
     JObj [(''score'', JNum 42), (''label'', JStr ''positive''), (''reasoning'', JStr ''ok'')]"

definition parse_known :: "string \<Rightarrow> string + json" where
  "parse_known s =
     (if s = strict_reply_json then Inr strict_reply_value
      else if s = loose_reply_json then Inr loose_reply_value
      else Inl ''Unexpected token'')"

definition fenced :: "string \<Rightarrow> string" where
  "fenced body = ''```json'' @ [CHR 0x0A] @ body @ [CHR 0x0A] @ ''```''"

definition strict_classifier :: classifier where
  "strict_classifier =
     \<lparr> api_key = ''key'', call_api = (\<lambda>text. ApiText (fenced strict_reply_json)),
       json_parse = parse_known \<rparr>"

definition loose_classifier :: classifier where
  "loose_classifier =
     \<lparr> api_key = ''key'', call_api = (\<lambda>text. ApiText (fenced loose_reply_json)),
       json_parse = parse_known \<rparr>"

definition unconfigured_classifier :: classifier where
  "unconfigured_classifier =
     \<lparr> api_key = [], call_api = (\<lambda>text. ApiError ''fetch failed''), json_parse = parse_known \<rparr>"

definition fifteen_unscored_db :: database where
  "fifteen_unscored_db =
     \<lparr> social_accounts = [acme_account],
       mentions = map (\<lambda>i. mention_row i 1 1 ''twitter'' praise) [1..<16],
       sentiment_analytics = Map.empty \<rparr>"

definition batch_request :: AnalyzeRequest where
  "batch_request = \<lparr> mentionIds = None, ad_hoc_content = None, batchSize = Some 10 \<rparr>"

definition one_scored_db :: database where
  "one_scored_db =
     \<lparr> social_accounts = [acme_account],
       mentions = [set_sentiment 85 Positive ''warm words'' (mention_row 1 1 1 ''twitter'' praise),
                   mention_row 2 1 1 ''twitter'' thanks],
       sentiment_analytics = Map.empty \<rparr>"

definition ids_request :: AnalyzeRequest where
  "ids_request = \<lparr> mentionIds = Some [1, 2], ad_hoc_content = None, batchSize = None \<rparr>"

text \<open>A starter tenant with a connected account and \<open>n\<close> posts waiting to be published.\<close>

definition starter_business :: business where
  "starter_business = \<lparr> b_id = 1, b_user_id = 1, subscription_status = Some Active,
                        subscription_tier = Some Starter \<rparr>"

definition instagram_account :: connected_account where
  "instagram_account = \<lparr> ca_id = 1, ca_business_id = 1, ca_platform = ''instagram'',
                         ca_is_active = True \<rparr>"

definition waiting_post :: "nat \<Rightarrow> scheduled_post" where
  "waiting_post i =
     \<lparr> sp_id = i, sp_business_id = 1, sp_social_account_id = 1, sp_platform = ''instagram'',
       sp_content = Some ''Spring sale'', sp_hashtags = [''#sale''], image_url = None,
       scheduled_time = 5000, sp_status = Scheduled, sp_created_at = 10 \<rparr>"

definition starter_db :: "nat \<Rightarrow> scheduler_db" where
  "starter_db n =
     \<lparr> businesses = [starter_business], connected_accounts = [instagram_account],
       generated_posts = [], scheduled_posts = map waiting_post [1..<Suc n] \<rparr>"

definition published_db :: scheduler_db where
  "published_db =
     \<lparr> businesses = [starter_business], connected_accounts = [instagram_account],
       generated_posts = [],
       scheduled_posts = [(waiting_post 1)\<lparr> sp_status := Published \<rparr>,
                          (waiting_post 2)\<lparr> sp_status := Failed \<rparr>] \<rparr>"

definition tomorrow_request :: ScheduleRequest where
  "tomorrow_request =
     \<lparr> postId = None, sr_content = Some ''New arrivals'', sr_platform = ''instagram'',
       scheduledTime = Some 86400000, hashtags = None, imageUrl = None \<rparr>"

definition yesterday_request :: ScheduleRequest where
  "yesterday_request =
     \<lparr> postId = None, sr_content = Some ''New arrivals'', sr_platform = ''instagram'',
       scheduledTime = Some 50, hashtags = None, imageUrl = None \<rparr>"

text \<open>A model that answers every request with two posts, for a tenant that has used \<open>used\<close> posts.\<close>

definition two_posts_json :: string where
  \<open>two_posts_json =
     ''{"posts": [{"content": "Hello"}, {"content": "World", "hashtags": ["#a"]}]}''\<close>

definition two_posts_value :: json where
  "two_posts_value =
     JObj [(''posts'', JArr [JObj [(''content'', JStr ''Hello'')],
                             JObj [(''content'', JStr ''World''), (''hashtags'', JArr [JStr ''#a''])]])]"

definition studio_generator :: "int \<Rightarrow> generator" where
  "studio_generator used =
     \<lparr> gen_businesses = [starter_business],
       month_usage = (\<lambda>b. if b = 1 then Some used else None),
       create_message = (\<lambda>prompt. Inr two_posts_json),
       parse_reply = (\<lambda>s. if s = two_posts_json then Inr two_posts_value else Inl ''Unexpected token''),
       insert_accepted = (\<lambda>rows. True) \<rparr>"

definition week_request :: GenerateRequest where
  "week_request =
     \<lparr> industry = ''beauty'', customIndustry = None, postCount = Some 7, g_platform = None,
       tone = None, includeHashtags = None, includeCTA = None \<rparr>"

definition two_posts_read :: "GeneratedPost list" where
  "two_posts_read =
     [\<lparr> post_index = 0, post_content = Some (JStr ''Hello''), post_hashtags = JArr [],
        post_cta = None, estimatedEngagement = JStr ''medium'', bestTimeToPost = JStr ''afternoon'',
        imagePrompt = None \<rparr>,
      \<lparr> post_index = 1, post_content = Some (JStr ''World''), post_hashtags = JArr [JStr ''#a''],
        post_cta = None, estimatedEngagement = JStr ''medium'', bestTimeToPost = JStr ''afternoon'',
        imagePrompt = None \<rparr>]"

text \<open>
  A request for five posts, and the same model in front of a store that refuses the insertion
  of the drafts.
\<close>

definition five_request :: GenerateRequest where
  "five_request =
     \<lparr> industry = ''fitness'', customIndustry = None, postCount = Some 5,
       g_platform = Some ''twitter'', tone = None, includeHashtags = None, includeCTA = None \<rparr>"

definition refusing_generator :: "int \<Rightarrow> generator" where
  "refusing_generator used =
     \<lparr> gen_businesses = [starter_business],
       month_usage = (\<lambda>b. if b = 1 then Some used else None),
       create_message = (\<lambda>prompt. Inr two_posts_json),
       parse_reply = (\<lambda>s. if s = two_posts_json then Inr two_posts_value else Inl ''Unexpected token''),
       insert_accepted = (\<lambda>rows. False) \<rparr>"


section \<open>Properties of the analytics trigger\<close>

lemma label_counts:
  "list_all (\<lambda>m. sentiment_label m \<noteq> None) rows \<Longrightarrow>
   length (filter (\<lambda>m. sentiment_label m = Some Positive) rows) +
   length (filter (\<lambda>m. sentiment_label m = Some Negative) rows) +
   length (filter (\<lambda>m. sentiment_label m = Some Neutral) rows) = length rows"
proof (induction rows)
  case Nil
  then show ?case by simp
next
  case (Cons m rows)
  then obtain l where "sentiment_label m = Some l" by auto
  with Cons show ?case by (cases l) auto
qed

lemma round_div_close:
  assumes "0 < n"
  shows "2 * \<bar>n * round_div s n - s\<bar> \<le> n"
proof (cases "0 \<le> s")
  case True
  define q where "q = (2 * s + n) div (2 * n)"
  define r where "r = (2 * s + n) mod (2 * n)"
  have e: "2 * s + n = 2 * n * q + r" unfolding q_def r_def by simp
  have r0: "0 \<le> r" and r1: "r < 2 * n" unfolding r_def using assms by simp_all
  have "round_div s n = q" using True by (simp add: round_div_def q_def)
  moreover have "2 * (n * q - s) = n - r" using e by (simp add: algebra_simps)
  ultimately show ?thesis using r0 r1 by (simp add: abs_if algebra_simps) 
next
  case False
  define q where "q = (2 * (- s) + n) div (2 * n)"
  define r where "r = (2 * (- s) + n) mod (2 * n)"
  have e: "2 * (- s) + n = 2 * n * q + r" unfolding q_def r_def by simp
  have r0: "0 \<le> r" and r1: "r < 2 * n" unfolding r_def using assms by simp_all
  have "round_div s n = - q" using False by (simp add: round_div_def q_def)
  moreover have "2 * (n * (- q) - s) = r - n" using e by (simp add: algebra_simps)
  ultimately show ?thesis using r0 r1 by (simp add: abs_if algebra_simps)
qed

lemma fold_trigger:
  "fold (\<lambda>old. update_sentiment_analytics ms (Some old) (f old)) olds an k =
     (if list_ex (\<lambda>old. sentiment_changed (Some old) (f old) \<and>
                       (m_user_id (f old), date_of (m_posted_at (f old))) = k) olds
      then Some (day_aggregate ms (fst k) (snd k)) else an k)"
  by (induction olds arbitrary: an) (auto simp: update_sentiment_analytics_def)


lemma step_row:
  assumes "fires_on db t d u"
  shows "sentiment_analytics (apply_update db u) (t, d) =
           Some (day_aggregate (mentions (apply_update db u)) t d)"
proof -
  obtain mid uid s l r where u: "u = (mid, uid, s, l, r)" by (cases u)
  from assms obtain m where m: "m \<in> set (mentions db)" "m_id m = mid" "m_user_id m = t"
      "date_of (m_posted_at m) = d" "sentiment_changed (Some m) (set_sentiment s l r m)"
      and t: "uid = t"
    by (auto simp: u list_ex_iff)
  have "list_ex (\<lambda>old. sentiment_changed (Some old) (set_sentiment s l r old) \<and>
           (m_user_id (set_sentiment s l r old), date_of (m_posted_at (set_sentiment s l r old))) = (t, d))
         (filter (\<lambda>m. m_id m = mid \<and> m_user_id m = uid) (mentions db))"
    unfolding list_ex_iff using m t by (auto simp: set_sentiment_def intro!: bexI[of _ m])
  then show ?thesis
    by (simp add: u update_mention_sentiment_def Let_def fold_trigger)
qed

lemma step_scored:
  assumes "fires_on db t d u"
  shows "scored_on (mentions (apply_update db u)) t d \<noteq> []"
proof -
  obtain mid uid s l r where u: "u = (mid, uid, s, l, r)" by (cases u)
  from assms obtain m where m: "m \<in> set (mentions db)" "m_id m = mid" "m_user_id m = t"
      "date_of (m_posted_at m) = d" and t: "uid = t"
    by (auto simp: u list_ex_iff)
  have "set_sentiment s l r m \<in> set (mentions (apply_update db u))"
    using m t by (auto simp: u update_mention_sentiment_def Let_def intro!: image_eqI[of _ _ m])
  moreover have "m_user_id (set_sentiment s l r m) = t"
      "date_of (m_posted_at (set_sentiment s l r m)) = d"
      "sentiment_score (set_sentiment s l r m) \<noteq> None"
    using m by (simp_all add: set_sentiment_def)
  ultimately have "set_sentiment s l r m \<in> set (scored_on (mentions (apply_update db u)) t d)"
    by (simp add: scored_on_def)
  then show ?thesis by auto
qed

lemma step_labelled:
  "labelled (mentions db) \<Longrightarrow> labelled (mentions (apply_update db u))"
  by (cases u) (auto simp: labelled_def list_all_iff update_mention_sentiment_def Let_def set_sentiment_def)

lemma seq_labelled:
  "labelled (mentions db) \<Longrightarrow> labelled (mentions (apply_updates db us))"
  unfolding apply_updates_def
  by (induction us arbitrary: db) (simp_all add: step_labelled)

lemma seq_row:
  "us \<noteq> [] \<Longrightarrow> updates_fire db t d us \<Longrightarrow>
   sentiment_analytics (apply_updates db us) (t, d) =
     Some (day_aggregate (mentions (apply_updates db us)) t d) \<and>
   scored_on (mentions (apply_updates db us)) t d \<noteq> []"
  unfolding apply_updates_def
proof (induction us arbitrary: db)
  case Nil
  then show ?case by simp
next
  case (Cons u us)
  show ?case
  proof (cases "us = []")
    case True
    with Cons.prems show ?thesis by (simp add: step_row step_scored)
  next
    case False
    with Cons.prems Cons.IH[of "apply_update db u"] show ?thesis by simp
  qed
qed

lemma map_filter_all_length:
  "list_all (\<lambda>m. f m \<noteq> None) xs \<Longrightarrow> length (List.map_filter f xs) = length xs"
  by (induction xs) (auto simp: List.map_filter_simps)

lemma scores_length:
  "length (List.map_filter sentiment_score (scored_on ms u d)) = length (scored_on ms u d)"
  by (rule map_filter_all_length) (simp add: scored_on_def list_all_iff)

lemma aggregate_total:
  assumes "labelled ms"
  shows "total_mentions (day_aggregate ms u d) =
           positive_count (day_aggregate ms u d) + negative_count (day_aggregate ms u d) +
           neutral_count (day_aggregate ms u d)"
proof -
  have "list_all (\<lambda>m. sentiment_label m \<noteq> None) (scored_on ms u d)"
    using assms by (auto simp: labelled_def scored_on_def list_all_iff)
  from label_counts[OF this] show ?thesis by (simp add: day_aggregate_def Let_def)
qed

lemma aggregate_average:
  assumes "scored_on ms u d \<noteq> []"
  shows "\<exists>a. average_score (day_aggregate ms u d) = Some a \<and>
             \<bar>of_int a / 10 - mean_score ms u d\<bar> \<le> 1 / 20"
proof -
  define scores where "scores = List.map_filter sentiment_score (scored_on ms u d)"
  define n where "n = int (length scores)"
  define a where "a = round_div (sum_list scores) n"
  have n: "0 < n" using assms by (simp add: n_def scores_def scores_length)
  have avg: "average_score (day_aggregate ms u d) = Some a"
    using n by (auto simp: day_aggregate_def Let_def avg_numeric_def a_def n_def scores_def)
  have "2 * \<bar>n * a - sum_list scores\<bar> \<le> n" unfolding a_def by (rule round_div_close[OF n])
  then have "(of_int (2 * \<bar>n * a - sum_list scores\<bar>) :: rat) \<le> of_int n" by (simp only: of_int_le_iff)
  then have "2 * \<bar>of_int n * of_int a - of_int (sum_list scores)\<bar> \<le> (of_int n :: rat)" by simp
  moreover have nn: "(0::rat) < of_int n" using n by simp
  moreover have "of_int a / 10 - (of_int (sum_list scores) / 10) / of_int n
                 = (of_int n * of_int a - of_int (sum_list scores)) / (10 * of_int n :: rat)"
    using nn by (simp add: field_simps)
  ultimately have "\<bar>of_int a / 10 - (of_int (sum_list scores) / 10) / (of_int n :: rat)\<bar> \<le> 1 / 20"
    by (simp add: abs_divide field_simps)
  moreover have "mean_score ms u d = (of_int (sum_list scores) / 10) / of_int n"
    by (simp add: mean_score_def Let_def scores_def n_def)
  ultimately show ?thesis using avg by simp
qed

text \<open>
  Claim C1, as the code has it.  Take a store in which every scored mention has a label, and a
  non-empty sequence of sentiment updates, each of which writes a score and one of the three
  labels to a mention of tenant \<open>t\<close> posted on day \<open>d\<close> and passes the trigger's guard.
  Afterwards the analytics row of \<open>(t, d)\<close> exists and holds the aggregates over the scored
  mentions of \<open>t\<close> on \<open>d\<close>: \<open>total_mentions\<close> is their number and equals
  \<open>positive_count + negative_count + neutral_count\<close>, and \<open>average_score\<close> is their mean
  rounded to the one decimal of \<^verbatim>\<open>NUMERIC(3,1)\<close>, so at most 0.05 away from the exact mean.
\<close>

theorem analytics_row_after_updates:
  assumes "labelled (mentions db)" and "us \<noteq> []" and "updates_fire db t d us"
  shows "\<exists>row a. sentiment_analytics (apply_updates db us) (t, d) = Some row \<and>
           row = day_aggregate (mentions (apply_updates db us)) t d \<and>
           total_mentions row = positive_count row + negative_count row + neutral_count row \<and>
           total_mentions row = length (scored_on (mentions (apply_updates db us)) t d) \<and>
           0 < total_mentions row \<and>
           average_score row = Some a \<and>
           \<bar>of_int a / 10 - mean_score (mentions (apply_updates db us)) t d\<bar> \<le> 1 / 20"
proof -
  let ?ms = "mentions (apply_updates db us)"
  from seq_row[OF assms(2,3)] have row: "sentiment_analytics (apply_updates db us) (t, d) = Some (day_aggregate ?ms t d)"
    and ne: "scored_on ?ms t d \<noteq> []" by simp_all
  from aggregate_average[OF ne] obtain a where a: "average_score (day_aggregate ?ms t d) = Some a"
    "\<bar>of_int a / 10 - mean_score ?ms t d\<bar> \<le> 1 / 20" by blast
  have tot: "total_mentions (day_aggregate ?ms t d) = length (scored_on ?ms t d)"
    by (simp add: day_aggregate_def Let_def)
  show ?thesis
    using row a tot ne aggregate_total[OF seq_labelled[OF assms(1)], of us t d] by auto
qed

theorem analytics_row_after_updates_witness:
  "labelled (mentions three_mentions_db) \<and> three_updates \<noteq> [] \<and>
   updates_fire three_mentions_db 1 0 three_updates \<and>
   (\<exists>row a. sentiment_analytics (apply_updates three_mentions_db three_updates) (1, 0) = Some row \<and>
      row = day_aggregate (mentions (apply_updates three_mentions_db three_updates)) 1 0 \<and>
      total_mentions row = positive_count row + negative_count row + neutral_count row \<and>
      total_mentions row = length (scored_on (mentions (apply_updates three_mentions_db three_updates)) 1 0) \<and>
      0 < total_mentions row \<and>
      average_score row = Some a \<and>
      \<bar>of_int a / 10 - mean_score (mentions (apply_updates three_mentions_db three_updates)) 1 0\<bar> \<le> 1 / 20)"
proof -
  have h1: "labelled (mentions three_mentions_db)" by code_simp
  have h2: "three_updates \<noteq> []" by code_simp
  have h3: "updates_fire three_mentions_db 1 0 three_updates" by code_simp
  show ?thesis
    using analytics_row_after_updates[OF h1 h2 h3] h1 h2 h3 by blast
qed

text \<open>
  Claim C1 as stated fails on the average.  Three mentions of tenant 1 posted on day 0 are
  scored 7.0, 7.0 and 8.0, each update firing the trigger.  The exact mean is 22/3, the stored
  \<open>average_score\<close> is 7.3: the column keeps one decimal, which is no floating-point rounding
  of 7.333...
\<close>

theorem average_score_counterexample:
  "sentiment_analytics (apply_updates three_mentions_db three_updates) (1, 0) =
     Some \<lparr> positive_count = 2, negative_count = 0, neutral_count = 1,
            average_score = Some 73, total_mentions = 3 \<rparr> \<and>
   mean_score (mentions (apply_updates three_mentions_db three_updates)) 1 0 = 22 / 3 \<and>
   \<bar>of_int 73 / 10 - mean_score (mentions (apply_updates three_mentions_db three_updates)) 1 0\<bar> = 1 / 30"
  by code_simp

section \<open>Properties of the ingestion route\<close>

lemma single_filter_iff: "single xs \<noteq> None \<longleftrightarrow> length xs = 1"
  by (cases xs; cases "tl xs") (auto simp: single_def split: list.splits)

lemma copies_insert:
  "stored_copies (insert_mention db (mention_row i uid acct pf m)) uid acct k =
     stored_copies db uid acct k +
       (if content k = content m \<and> author k = author m \<and> postedAt k = postedAt m then 1 else 0)"
  by (auto simp: stored_copies_def insert_mention_def Let_def mention_row_def same_mention_def)

lemma copies_same_key:
  "content k = content m \<Longrightarrow> author k = author m \<Longrightarrow> postedAt k = postedAt m \<Longrightarrow>
   stored_copies db uid acct k = stored_copies db uid acct m"
  by (simp add: stored_copies_def same_mention_def [abs_def])

lemma ingest_step_existing:
  "stored_copies db uid acct m = 1 \<Longrightarrow>
   ingest_mentions uid acct pf False db (m # rest) =
     (case ingest_mentions uid acct pf False db rest of
        (db', inserted, skipped) \<Rightarrow> (db', inserted, m # skipped))"
  using single_filter_iff[of "filter (same_mention uid acct m) (mentions db)"]
  by (simp add: stored_copies_def Let_def)

lemma ingest_step_new:
  "stored_copies db uid acct m \<noteq> 1 \<Longrightarrow>
   ingest_mentions uid acct pf False db (m # rest) =
     (let row = mention_row (fresh_id (mentions db)) uid acct pf m
      in case ingest_mentions uid acct pf False (insert_mention db row) rest of
           (db', inserted, skipped) \<Rightarrow> (db', row # inserted, skipped))"
  using single_filter_iff[of "filter (same_mention uid acct m) (mentions db)"]
  by (simp add: stored_copies_def Let_def)

declare ingest_mentions.simps(2) [simp del]

lemma ingest_fst_cons:
  "fst (ingest_mentions uid acct pf False db (m # rest)) =
   fst (ingest_mentions uid acct pf False (ingest_one uid acct pf db m) rest)"
  by (cases "stored_copies db uid acct m = 1")
     (simp_all add: ingest_one_def ingest_step_existing ingest_step_new Let_def split: prod.splits)

lemma ingest_one_copies:
  assumes "stored_copies db uid acct m \<le> 1" and "stored_copies db uid acct k \<le> 1"
  shows "stored_copies (ingest_one uid acct pf db m) uid acct k \<le> 1"
    and "stored_copies db uid acct k \<le> stored_copies (ingest_one uid acct pf db m) uid acct k"
    and "stored_copies (ingest_one uid acct pf db m) uid acct m = 1"
proof -
  show "stored_copies (ingest_one uid acct pf db m) uid acct k \<le> 1"
    using assms copies_same_key[of k m db uid acct]
    by (auto simp: ingest_one_def copies_insert)
  show "stored_copies db uid acct k \<le> stored_copies (ingest_one uid acct pf db m) uid acct k"
    by (simp add: ingest_one_def copies_insert)
  show "stored_copies (ingest_one uid acct pf db m) uid acct m = 1"
    using assms(1) by (auto simp: ingest_one_def copies_insert)
qed

lemma ingest_at_most_one:
  assumes "set ms \<subseteq> K" and "\<forall>k\<in>K. stored_copies db uid acct k \<le> 1"
  shows "\<forall>k\<in>K. stored_copies (fst (ingest_mentions uid acct pf False db ms)) uid acct k \<le> 1 \<and>
               stored_copies db uid acct k
                 \<le> stored_copies (fst (ingest_mentions uid acct pf False db ms)) uid acct k"
  using assms
proof (induction ms arbitrary: db)
  case Nil
  then show ?case by simp
next
  case (Cons m ms)
  have mK: "m \<in> K" and msK: "set ms \<subseteq> K" using Cons.prems(1) by auto
  define db1 where "db1 = ingest_one uid acct pf db m"
  have m1: "stored_copies db uid acct m \<le> 1" using Cons.prems(2) mK by blast
  have inv1: "\<forall>k\<in>K. stored_copies db1 uid acct k \<le> 1"
    using ingest_one_copies(1)[OF m1] Cons.prems(2) by (simp add: db1_def)
  have mono1: "\<forall>k\<in>K. stored_copies db uid acct k \<le> stored_copies db1 uid acct k"
    using ingest_one_copies(2)[OF m1] Cons.prems(2) by (simp add: db1_def)
  show ?case
  proof
    fix k assume k: "k \<in> K"
    from Cons.IH[OF msK inv1] k
    have a: "stored_copies (fst (ingest_mentions uid acct pf False db1 ms)) uid acct k \<le> 1"
      and b: "stored_copies db1 uid acct k
                \<le> stored_copies (fst (ingest_mentions uid acct pf False db1 ms)) uid acct k"
      by blast+
    from mono1 k have c: "stored_copies db uid acct k \<le> stored_copies db1 uid acct k" by blast
    show "stored_copies (fst (ingest_mentions uid acct pf False db (m # ms))) uid acct k \<le> 1 \<and>
          stored_copies db uid acct k
            \<le> stored_copies (fst (ingest_mentions uid acct pf False db (m # ms))) uid acct k"
      using a b c by (simp add: ingest_fst_cons db1_def[symmetric])
  qed
qed

lemma ingest_stores_each:
  assumes "\<forall>m\<in>set ms. stored_copies db uid acct m \<le> 1"
  shows "\<forall>m\<in>set ms. stored_copies (fst (ingest_mentions uid acct pf False db ms)) uid acct m = 1"
  using assms
proof (induction ms arbitrary: db)
  case Nil
  then show ?case by simp
next
  case (Cons m ms)
  define db1 where "db1 = ingest_one uid acct pf db m"
  have m1: "stored_copies db uid acct m \<le> 1" using Cons.prems by simp
  have inv1: "\<forall>k\<in>set (m # ms). stored_copies db1 uid acct k \<le> 1"
    using ingest_one_copies(1)[OF m1] Cons.prems unfolding db1_def by blast
  have one: "stored_copies db1 uid acct m = 1"
    using ingest_one_copies(3)[OF m1 m1] by (simp add: db1_def)
  have "set ms \<subseteq> set (m # ms)" by auto
  from ingest_at_most_one[OF this inv1, of pf]
  have "stored_copies (fst (ingest_mentions uid acct pf False db1 ms)) uid acct m \<le> 1"
    and "stored_copies db1 uid acct m
           \<le> stored_copies (fst (ingest_mentions uid acct pf False db1 ms)) uid acct m"
    by simp_all
  with one have head: "stored_copies (fst (ingest_mentions uid acct pf False db1 ms)) uid acct m = 1"
    by simp
  have "\<forall>k\<in>set ms. stored_copies db1 uid acct k \<le> 1" using inv1 by simp
  from Cons.IH[OF this]
  have tail: "\<forall>k\<in>set ms. stored_copies (fst (ingest_mentions uid acct pf False db1 ms)) uid acct k = 1" .
  show ?case using head tail by (simp add: ingest_fst_cons db1_def[symmetric])
qed

lemma ingest_all_skipped:
  "\<forall>m\<in>set ms. stored_copies db uid acct m = 1 \<Longrightarrow>
   ingest_mentions uid acct pf False db ms = (db, [], ms)"
  by (induction ms) (simp_all add: ingest_step_existing)

lemma ingest_keeps_accounts:
  "social_accounts (fst (ingest_mentions uid acct pf force db ms)) = social_accounts db"
  by (induction uid acct pf force db ms rule: ingest_mentions.induct)
     (auto simp: ingest_mentions.simps(2) Let_def insert_mention_def split: prod.splits)

text \<open>
  Claim C2.  An authenticated tenant ingests twice in a row from an account that is its own,
  active and not expired, with \<^verbatim>\<open>forceRefresh\<close> false, and the platform returns the same
  mentions \<open>ms\<close> both times; before the first call the store holds at most one row for each of
  them.  Then the second call inserts nothing, leaves the store as the first call left it and
  answers \<open>fetched = length ms\<close>, \<open>inserted = 0\<close>, \<open>skipped = length ms\<close>; and the store
  holds exactly one row for each mention of \<open>ms\<close>.
\<close>

theorem ingest_twice_one_row:
  assumes acc: "single (filter (\<lambda>a. sa_id a = sid \<and> sa_user_id a = uid) (social_accounts db)) = Some acc"
      "is_active acc"
      "\<not> (case token_expires_at acc of None \<Rightarrow> False | Some e \<Rightarrow> e < now1)"
      "\<not> (case token_expires_at acc of None \<Rightarrow> False | Some e \<Rightarrow> e < now2)"
    and body: "socialAccountId body = Some sid" "platform body \<noteq> []"
      "(case forceRefresh body of None \<Rightarrow> False | Some f \<Rightarrow> f) = False"
    and fetched: "fetch_platform env (platform body) acc = Some (Inr ms)"
    and fresh: "\<forall>m\<in>set ms. stored_copies db uid sid m \<le> 1"
  shows "case ingest_POST env now1 (Some uid) body db of
           (r1, db1) \<Rightarrow>
             (case ingest_POST env now2 (Some uid) body db1 of
                (r2, db2) \<Rightarrow>
                  r2 = IngestOk (length ms) 0 (length ms) [] \<and> db2 = db1 \<and>
                  (\<forall>m\<in>set ms. stored_copies db2 uid sid m = 1))"
proof -
  define db1 where "db1 = fst (ingest_mentions uid sid (platform body) False db ms)"
  have first: "snd (ingest_POST env now1 (Some uid) body db) = db1"
    using acc body fetched by (simp add: ingest_POST_def db1_def split: prod.splits)
  have one: "\<forall>m\<in>set ms. stored_copies db1 uid sid m = 1"
    unfolding db1_def by (rule ingest_stores_each[OF fresh])
  have acc1: "single (filter (\<lambda>a. sa_id a = sid \<and> sa_user_id a = uid) (social_accounts db1)) = Some acc"
    using acc(1) by (simp add: db1_def ingest_keeps_accounts)
  have second: "ingest_POST env now2 (Some uid) body db1 = (IngestOk (length ms) 0 (length ms) [], db1)"
    using acc1 acc(2,4) body fetched by (simp add: ingest_POST_def ingest_all_skipped[OF one])
  show ?thesis using first second one by (auto split: prod.splits)
qed

theorem ingest_twice_one_row_witness:
  "single (filter (\<lambda>a. sa_id a = 1 \<and> sa_user_id a = 1) (social_accounts empty_db)) = Some acme_account \<and>
   is_active acme_account \<and>
   \<not> (case token_expires_at acme_account of None \<Rightarrow> False | Some e \<Rightarrow> e < 100) \<and>
   \<not> (case token_expires_at acme_account of None \<Rightarrow> False | Some e \<Rightarrow> e < 200) \<and>
   socialAccountId twitter_request = Some 1 \<and> platform twitter_request \<noteq> [] \<and>
   (case forceRefresh twitter_request of None \<Rightarrow> False | Some f \<Rightarrow> f) = False \<and>
   fetch_platform mock_fetchers (platform twitter_request) acme_account = Some (Inr [praise, thanks]) \<and>
   list_all (\<lambda>m. stored_copies empty_db 1 1 m \<le> 1) [praise, thanks] \<and>
   (case ingest_POST mock_fetchers 100 (Some 1) twitter_request empty_db of
      (r1, db1) \<Rightarrow>
        (case ingest_POST mock_fetchers 200 (Some 1) twitter_request db1 of
           (r2, db2) \<Rightarrow>
             r2 = IngestOk (length [praise, thanks]) 0 (length [praise, thanks]) [] \<and> db2 = db1 \<and>
             list_all (\<lambda>m. stored_copies db2 1 1 m = 1) [praise, thanks]))"
proof -
  have h1: "single (filter (\<lambda>a. sa_id a = 1 \<and> sa_user_id a = 1) (social_accounts empty_db)) = Some acme_account"
    by (simp add: empty_db_def acme_account_def single_def)
  have h2: "is_active acme_account" by (simp add: acme_account_def)
  have h3: "\<not> (case token_expires_at acme_account of None \<Rightarrow> False | Some e \<Rightarrow> e < 100)"
    by (simp add: acme_account_def)
  have h4: "\<not> (case token_expires_at acme_account of None \<Rightarrow> False | Some e \<Rightarrow> e < 200)"
    by (simp add: acme_account_def)
  have h5: "socialAccountId twitter_request = Some 1" by (simp add: twitter_request_def)
  have h6: "platform twitter_request \<noteq> []" by (simp add: twitter_request_def)
  have h7: "(case forceRefresh twitter_request of None \<Rightarrow> False | Some f \<Rightarrow> f) = False"
    by (simp add: twitter_request_def)
  have h8: "fetch_platform mock_fetchers (platform twitter_request) acme_account = Some (Inr [praise, thanks])"
    by (simp add: fetch_platform_def mock_fetchers_def twitter_request_def)
  have h9: "\<forall>m\<in>set [praise, thanks]. stored_copies empty_db 1 1 m \<le> 1"
    by (simp add: stored_copies_def empty_db_def)
  show ?thesis
    using ingest_twice_one_row[OF h1 h2 h3 h4 h5 h6 h7 h8 h9] h1 h2 h3 h4 h5 h6 h7 h8 h9
    by (simp add: list_all_iff split: prod.splits)
qed

section \<open>Properties of the classifier client\<close>

lemma has_fence_iff: "has_fence s \<longleftrightarrow> (\<exists>pre post. s = pre @ ''```'' @ post)"
proof (induction s rule: has_fence.induct)
  case (1 a b c cs)
  show ?case
  proof
    assume "has_fence (a # b # c # cs)"
    then consider "a = CHR 0x60 \<and> b = CHR 0x60 \<and> c = CHR 0x60" | "has_fence (b # c # cs)" by auto
    then show "\<exists>pre post. a # b # c # cs = pre @ ''```'' @ post"
    proof cases
      case 1
      then have "a # b # c # cs = [] @ ''```'' @ cs" by simp
      then show ?thesis by blast
    next
      case 2
      with 1 obtain pre post where "b # c # cs = pre @ ''```'' @ post" by blast
      then have "a # b # c # cs = (a # pre) @ ''```'' @ post" by simp
      then show ?thesis by blast
    qed
  next
    assume "\<exists>pre post. a # b # c # cs = pre @ ''```'' @ post"
    then obtain pre post where e: "a # b # c # cs = pre @ ''```'' @ post" by blast
    show "has_fence (a # b # c # cs)"
    proof (cases pre)
      case Nil
      with e show ?thesis by simp
    next
      case (Cons p pre')
      with e have "b # c # cs = pre' @ ''```'' @ post" by simp
      then have "has_fence (b # c # cs)" using 1 by blast
      then show ?thesis by simp
    qed
  qed
qed (auto simp: append_eq_Cons_conv)

lemma has_fence_rev: "has_fence (rev s) = has_fence s"
proof -
  have "has_fence s \<Longrightarrow> has_fence (rev s)" for s
  proof -
    assume "has_fence s"
    then obtain pre post where "s = pre @ ''```'' @ post" unfolding has_fence_iff by blast
    then have "rev s = rev post @ ''```'' @ rev pre" by simp
    then show "has_fence (rev s)" unfolding has_fence_iff by blast
  qed
  from this[of s] this[of "rev s"] show ?thesis by auto
qed

lemma has_fence_dropWhile: "has_fence (dropWhile P s) \<Longrightarrow> has_fence s"
proof -
  assume "has_fence (dropWhile P s)"
  then obtain pre post where "dropWhile P s = pre @ ''```'' @ post" unfolding has_fence_iff by blast
  then have "s = (takeWhile P s @ pre) @ ''```'' @ post"
    by (metis append.assoc takeWhile_dropWhile_id)
  then show ?thesis unfolding has_fence_iff by blast
qed

lemma has_fence_trim: "has_fence (trim s) \<Longrightarrow> has_fence s"
proof -
  assume "has_fence (trim s)"
  then have "has_fence (dropWhile white_space (rev (dropWhile white_space s)))"
    by (simp add: trim_def has_fence_rev)
  then have "has_fence (rev (dropWhile white_space s))" by (rule has_fence_dropWhile)
  then have "has_fence (dropWhile white_space s)" by (simp add: has_fence_rev)
  then show "has_fence s" by (rule has_fence_dropWhile)
qed

lemma remove_all_other:
  "c \<noteq> CHR 0x60 \<Longrightarrow> remove_all ''```'' (c # cs) = c # remove_all ''```'' cs"
  by auto

lemma remove_all_no_pair:
  assumes "\<not> (\<exists>r. t = CHR 0x60 # CHR 0x60 # r)"
  shows "\<not> (\<exists>r. remove_all ''```'' t = CHR 0x60 # CHR 0x60 # r)"
proof (cases t)
  case Nil
  then show ?thesis by simp
next
  case (Cons x t')
  show ?thesis
  proof (cases t')
    case Nil
    with Cons show ?thesis by simp
  next
    case (Cons y r)
    with \<open>t = x # t'\<close> assms have xy: "\<not> (x = CHR 0x60 \<and> y = CHR 0x60)" by simp
    show ?thesis
    proof (cases "x = CHR 0x60")
      case False
      then show ?thesis using \<open>t = x # t'\<close> by (simp add: remove_all_other)
    next
      case True
      with xy have y: "y \<noteq> CHR 0x60" by simp
      have "remove_all ''```'' t = x # y # remove_all ''```'' r"
        using \<open>t = x # t'\<close> Cons y by (cases r) (auto simp: remove_all_other)
      with y show ?thesis by simp
    qed
  qed
qed

lemma remove_all_no_fence: "\<not> has_fence (remove_all ''```'' s)"
proof (induction "''```''" s rule: remove_all.induct)
  case 1
  show ?case by simp
next
  case (2 c cs)
  show ?case
  proof (cases "take (length ''```'') (c # cs) = ''```''")
    case True
    with 2(1) show ?thesis by simp
  next
    case False
    then have eq: "remove_all ''```'' (c # cs) = c # remove_all ''```'' cs" by auto
    have tail: "\<not> has_fence (remove_all ''```'' cs)" using 2(2) False by simp
    show ?thesis
    proof (cases "c = CHR 0x60")
      case c: True
      from False c have "\<not> (\<exists>r. cs = CHR 0x60 # CHR 0x60 # r)" by auto
      from remove_all_no_pair[OF this] tail show ?thesis
        unfolding eq by (cases "remove_all ''```'' cs" rule: has_fence.cases) auto
    next
      case False
      with tail show ?thesis
        unfolding eq by (cases "remove_all ''```'' cs" rule: has_fence.cases) auto
    qed
  qed
qed

lemma clean_reply_no_fence:
  "startsWith (trim t) ''```'' \<Longrightarrow> \<not> has_fence (clean_reply t)"
  by (auto simp: clean_reply_def Let_def dest!: has_fence_trim simp: remove_all_no_fence)

lemma label_of_name: "label_of (Some (JStr (label_name l))) = Some l"
  by (cases l) (simp_all add: label_of_def)

lemma label_of_Some: "label_of v = Some l \<Longrightarrow> v = Some (JStr (label_name l))"
  by (cases l) (auto simp: label_of_def split: option.splits json.splits if_splits)

lemma validate_result_iff:
  "validate_result j = Inr res \<longleftrightarrow>
     (\<exists>kvs. j = JObj kvs \<and> map_of kvs ''score'' = Some (JNum (score res)) \<and>
            map_of kvs ''label'' = Some (JStr (label_name (label res))) \<and>
            map_of kvs ''reasoning'' = Some (JStr (reasoning res)) \<and>
            confidence res = map_of kvs ''confidence'')"
proof
  assume v: "validate_result j = Inr res"
  then obtain kvs where p: "properties j = Some kvs"
    by (auto simp: validate_result_def split: option.splits)
  from v p obtain s l r where f: "map_of kvs ''score'' = Some (JNum s)"
      "label_of (map_of kvs ''label'') = Some l" "map_of kvs ''reasoning'' = Some (JStr r)"
      and res: "res = \<lparr> score = s, label = l, reasoning = r, confidence = map_of kvs ''confidence'' \<rparr>"
    by (auto simp: validate_result_def split: option.splits json.splits)
  from f(1) p have "j = JObj kvs"
    by (auto simp: properties_def split: json.splits)
  with f res label_of_Some[OF f(2)]
  show "\<exists>kvs. j = JObj kvs \<and> map_of kvs ''score'' = Some (JNum (score res)) \<and>
            map_of kvs ''label'' = Some (JStr (label_name (label res))) \<and>
            map_of kvs ''reasoning'' = Some (JStr (reasoning res)) \<and>
            confidence res = map_of kvs ''confidence''"
    by auto
next
  assume "\<exists>kvs. j = JObj kvs \<and> map_of kvs ''score'' = Some (JNum (score res)) \<and>
            map_of kvs ''label'' = Some (JStr (label_name (label res))) \<and>
            map_of kvs ''reasoning'' = Some (JStr (reasoning res)) \<and>
            confidence res = map_of kvs ''confidence''"
  then show "validate_result j = Inr res"
    by (auto simp: validate_result_def properties_def label_of_name)
qed

text \<open>
  Claim C9, as the code has it.  The client returns a result exactly when the key is
  configured, the call yields a text, the cleaned text parses to an object, and in that object
  \<^verbatim>\<open>score\<close> is a number, \<^verbatim>\<open>label\<close> is one of the three strings and \<^verbatim>\<open>reasoning\<close> is a
  string; the result carries these three values and whatever \<^verbatim>\<open>confidence\<close> the object had.
  In every other case it throws.  A reply whose trimmed text starts with a code fence reaches
  the parser with no fence left in it.
\<close>

theorem classifier_result_checked:
  "(analyzeSentimentWithClaude env text = Inr res \<longleftrightarrow>
      api_key env \<noteq> [] \<and>
      (\<exists>t kvs. call_api env text = ApiText t \<and>
         json_parse env (clean_reply t) = Inr (JObj kvs) \<and>
         map_of kvs ''score'' = Some (JNum (score res)) \<and>
         map_of kvs ''label'' = Some (JStr (label_name (label res))) \<and>
         map_of kvs ''reasoning'' = Some (JStr (reasoning res)) \<and>
         confidence res = map_of kvs ''confidence'')) \<and>
   (startsWith (trim t') ''```'' \<longrightarrow> \<not> has_fence (clean_reply t'))"
proof -
  have "analyzeSentimentWithClaude env text = Inr res \<longleftrightarrow>
      api_key env \<noteq> [] \<and>
      (\<exists>t j. call_api env text = ApiText t \<and> json_parse env (clean_reply t) = Inr j \<and>
             validate_result j = Inr res)"
    by (auto simp: analyzeSentimentWithClaude_def split: api_reply.splits sum.splits)
  then show ?thesis
    unfolding validate_result_iff using clean_reply_no_fence by blast
qed

theorem classifier_result_checked_witness:
  "api_key strict_classifier \<noteq> [] \<and>
   call_api strict_classifier ''Great product'' = ApiText (fenced strict_reply_json) \<and>
   startsWith (trim (fenced strict_reply_json)) ''```'' \<and>
   \<not> has_fence (clean_reply (fenced strict_reply_json)) \<and>
   json_parse strict_classifier (clean_reply (fenced strict_reply_json)) = Inr strict_reply_value \<and>
   analyzeSentimentWithClaude strict_classifier ''Great product'' =
     Inr \<lparr> score = 17 / 2, label = Positive, reasoning = ''warm words'',
           confidence = Some (JNum (9 / 10)) \<rparr>"
proof -
  let ?res = "\<lparr> score = 17 / 2, label = Positive, reasoning = ''warm words'',
           confidence = Some (JNum (9 / 10)) \<rparr>"
  have k: "api_key strict_classifier \<noteq> []" by (simp add: strict_classifier_def)
  have c: "call_api strict_classifier ''Great product'' = ApiText (fenced strict_reply_json)"
    by (simp add: strict_classifier_def)
  have s: "startsWith (trim (fenced strict_reply_json)) ''```''" by code_simp
  have p: "json_parse strict_classifier (clean_reply (fenced strict_reply_json)) = Inr strict_reply_value"
    by code_simp
  have v: "strict_reply_value = JObj [(''score'', JNum (17 / 2)), (''label'', JStr ''positive''),
           (''reasoning'', JStr ''warm words''), (''confidence'', JNum (9 / 10))]"
    by (simp add: strict_reply_value_def)
  have rhs: "\<exists>t kvs. call_api strict_classifier ''Great product'' = ApiText t \<and>
         json_parse strict_classifier (clean_reply t) = Inr (JObj kvs) \<and>
         map_of kvs ''score'' = Some (JNum (score ?res)) \<and>
         map_of kvs ''label'' = Some (JStr (label_name (label ?res))) \<and>
         map_of kvs ''reasoning'' = Some (JStr (reasoning ?res)) \<and>
         confidence ?res = map_of kvs ''confidence''"
    by (rule exI[of _ "fenced strict_reply_json"],
        rule exI[of _ "[(''score'', JNum (17 / 2)), (''label'', JStr ''positive''),
           (''reasoning'', JStr ''warm words''), (''confidence'', JNum (9 / 10))]"])
       (simp add: c p v)
  from classifier_result_checked[of strict_classifier "''Great product''" ?res "fenced strict_reply_json"]
  show ?thesis using k c s p rhs by blast
qed

text \<open>
  Claim C9 as stated fails: a reply with score 42, outside \<open>[0, 10]\<close>, and no
  \<^verbatim>\<open>confidence\<close> field at all is returned.
\<close>

theorem classifier_accepts_out_of_range_counterexample:
  "analyzeSentimentWithClaude loose_classifier ''Great product'' =
     Inr \<lparr> score = 42, label = Positive, reasoning = ''ok'', confidence = None \<rparr>"
  by code_simp

section \<open>Properties of the analysis route\<close>

lemma kept_refl: "scored_rows_kept ms ms"
  by (simp add: scored_rows_kept_def list_all2_refl)

lemma kept_trans:
  assumes "scored_rows_kept xs ys" and "scored_rows_kept ys zs"
  shows "scored_rows_kept xs zs"
  using assms unfolding scored_rows_kept_def
  by (rule list_all2_trans[rotated]) auto

lemma kept_member:
  "scored_rows_kept ms ms' \<Longrightarrow> m \<in> set ms \<Longrightarrow> sentiment_score m \<noteq> None \<Longrightarrow> m \<in> set ms'"
  unfolding scored_rows_kept_def
  by (induction ms ms' rule: list_all2_induct) auto

lemma kept_filter:
  "scored_rows_kept ms ms' \<Longrightarrow>
   scored_rows_kept (filter (\<lambda>r. m_id r = i \<and> m_user_id r = u) ms)
                    (filter (\<lambda>r. m_id r = i \<and> m_user_id r = u) ms')"
  unfolding scored_rows_kept_def
  by (induction ms ms' rule: list_all2_induct) auto

lemma single_Some_iff: "single xs = Some x \<longleftrightarrow> xs = [x]"
  by (cases xs; cases "tl xs") (auto simp: single_def split: list.splits)

lemma kept_single:
  assumes "scored_rows_kept ms ms'"
    and "single (filter (\<lambda>r. m_id r = i \<and> m_user_id r = u) ms) = Some m"
    and "sentiment_score m \<noteq> None"
  shows "single (filter (\<lambda>r. m_id r = i \<and> m_user_id r = u) ms') = Some m"
proof -
  from assms(2) have "filter (\<lambda>r. m_id r = i \<and> m_user_id r = u) ms = [m]"
    by (simp add: single_Some_iff)
  with kept_filter[OF assms(1), of i u]
  have "scored_rows_kept [m] (filter (\<lambda>r. m_id r = i \<and> m_user_id r = u) ms')" by simp
  with assms(3) have "filter (\<lambda>r. m_id r = i \<and> m_user_id r = u) ms' = [m]"
    by (auto simp: scored_rows_kept_def list_all2_Cons1)
  then show ?thesis by (simp add: single_Some_iff)
qed

lemma update_kept:
  assumes "\<forall>m\<in>set (mentions db). m_id m = mid \<and> m_user_id m = uid \<longrightarrow> sentiment_score m = None"
  shows "scored_rows_kept (mentions db) (mentions (update_mention_sentiment db mid uid s l r))"
  using assms
  by (auto simp: scored_rows_kept_def update_mention_sentiment_def Let_def list_all2_map2
                 set_sentiment_def intro!: list_all2_all_nthI)

lemma classify_and_store_kept:
  assumes "\<forall>m\<in>set (mentions db). m_id m = mid \<and> m_user_id m = uid \<longrightarrow> sentiment_score m = None"
  shows "scored_rows_kept (mentions db) (mentions (fst (classify_and_store env uid db mid text)))"
  using update_kept[OF assms]
  by (auto simp: classify_and_store_def store_sentiment_def kept_refl split: sum.splits option.splits)

lemma classify_and_store_called:
  "snd (snd (classify_and_store env uid db mid text)) = [mid]"
  by (auto simp: classify_and_store_def split: sum.splits)

lemma analyze_id_kept:
  "scored_rows_kept (mentions db) (mentions (fst (analyze_id env uid db mid)))"
proof (cases "single (filter (\<lambda>m. m_id m = mid \<and> m_user_id m = uid) (mentions db))")
  case None
  then show ?thesis by (simp add: analyze_id_def kept_refl)
next
  case (Some m)
  then have f: "filter (\<lambda>m. m_id m = mid \<and> m_user_id m = uid) (mentions db) = [m]"
    by (simp add: single_Some_iff)
  show ?thesis
  proof (cases "sentiment_score m")
    case None
    have "\<forall>x\<in>set (mentions db). m_id x = mid \<and> m_user_id x = uid \<longrightarrow> sentiment_score x = None"
    proof (intro ballI impI)
      fix x assume "x \<in> set (mentions db)" "m_id x = mid \<and> m_user_id x = uid"
      then have "x \<in> set (filter (\<lambda>m. m_id m = mid \<and> m_user_id m = uid) (mentions db))" by simp
      with f have "x = m" by simp
      with None show "sentiment_score x = None" by simp
    qed
    from classify_and_store_kept[OF this] show ?thesis
      using Some None by (simp add: analyze_id_def)
  next
    case (Some s)
    with \<open>single _ = Some m\<close> show ?thesis by (simp add: analyze_id_def kept_refl)
  qed
qed

lemma analyze_id_called:
  assumes "m \<in> set (mentions db)" "sentiment_score m \<noteq> None" "m_user_id m = uid"
  shows "m_id m \<notin> set (snd (snd (analyze_id env uid db mid)))"
proof (cases "mid = m_id m")
  case False
  then show ?thesis
    by (auto simp: analyze_id_def classify_and_store_def split: option.splits sum.splits)
next
  case True
  show ?thesis
  proof (cases "single (filter (\<lambda>m. m_id m = mid \<and> m_user_id m = uid) (mentions db))")
    case None
    then show ?thesis by (simp add: analyze_id_def)
  next
    case (Some m')
    then have f: "filter (\<lambda>m. m_id m = mid \<and> m_user_id m = uid) (mentions db) = [m']"
      by (simp add: single_Some_iff)
    have "m \<in> set (filter (\<lambda>m. m_id m = mid \<and> m_user_id m = uid) (mentions db))"
      using assms True by simp
    with f have "m' = m" by simp
    with Some assms(2) show ?thesis by (auto simp: analyze_id_def)
  qed
qed

lemma analyze_id_cached:
  assumes "single (filter (\<lambda>r. m_id r = mid \<and> m_user_id r = uid) (mentions db)) = Some m"
    and "sentiment_score m = Some s"
  shows "fst (snd (analyze_id env uid db mid)) = ItemCached mid s (sentiment_label m) (sentiment_reasoning m)"
  using assms by (simp add: analyze_id_def)

lemma analyze_ids_cons:
  "analyze_ids env uid db (mid # rest) =
     (fst (analyze_ids env uid (fst (analyze_id env uid db mid)) rest),
      fst (snd (analyze_id env uid db mid)) # fst (snd (analyze_ids env uid (fst (analyze_id env uid db mid)) rest)),
      snd (snd (analyze_id env uid db mid)) @ snd (snd (analyze_ids env uid (fst (analyze_id env uid db mid)) rest)))"
  by (simp split: prod.splits)

declare analyze_ids.simps(2) [simp del]

lemma analyze_ids_kept:
  "scored_rows_kept (mentions db) (mentions (fst (analyze_ids env uid db ids)))"
proof (induction ids arbitrary: db)
  case Nil
  show ?case by (simp add: kept_refl)
next
  case (Cons mid rest)
  show ?case
    using kept_trans[OF analyze_id_kept Cons.IH] by (simp add: analyze_ids_cons)
qed

lemma analyze_ids_called:
  assumes "m \<in> set (mentions db)" "sentiment_score m \<noteq> None" "m_user_id m = uid"
  shows "m_id m \<notin> set (snd (snd (analyze_ids env uid db ids)))"
  using assms
proof (induction ids arbitrary: db)
  case Nil
  show ?case by simp
next
  case (Cons mid rest)
  have "m \<in> set (mentions (fst (analyze_id env uid db mid)))"
    using kept_member[OF analyze_id_kept Cons.prems(1,2)] .
  from Cons.IH[OF this Cons.prems(2,3)] analyze_id_called[OF Cons.prems]
  show ?case by (simp add: analyze_ids_cons)
qed

lemma analyze_ids_length:
  "length (fst (snd (analyze_ids env uid db ids))) = length ids"
  by (induction ids arbitrary: db) (simp_all add: analyze_ids_cons)

lemma analyze_ids_cached:
  assumes "i < length ids"
    and "single (filter (\<lambda>r. m_id r = ids ! i \<and> m_user_id r = uid) (mentions db)) = Some m"
    and "sentiment_score m = Some s"
  shows "fst (snd (analyze_ids env uid db ids)) ! i =
           ItemCached (ids ! i) s (sentiment_label m) (sentiment_reasoning m)"
  using assms
proof (induction ids arbitrary: db i)
  case Nil
  then show ?case by simp
next
  case (Cons mid rest)
  show ?case
  proof (cases i)
    case 0
    with Cons.prems show ?thesis by (simp add: analyze_ids_cons analyze_id_cached)
  next
    case (Suc j)
    have "single (filter (\<lambda>r. m_id r = rest ! j \<and> m_user_id r = uid)
             (mentions (fst (analyze_id env uid db mid)))) = Some m"
      using kept_single[OF analyze_id_kept] Cons.prems(2,3) Suc by simp
    from Cons.IH[OF _ this Cons.prems(3)] Cons.prems(1) Suc
    show ?thesis by (simp add: analyze_ids_cons)
  qed
qed

lemma select_unanalyzed_unscored:
  "m \<in> set (select_unanalyzed db u n) \<Longrightarrow> sentiment_score m = None"
  by (auto simp: select_unanalyzed_def unanalyzed_def dest: in_set_takeD)

text \<open>
  Claim C3.  In the mode by ids, every mention that has a score is the same row after the
  call; the classifier is not called for a scored mention of the requesting tenant; the
  response has one entry per requested id, and where the lookup finds a scored mention the
  entry is a cache hit with the stored score, label and reasoning.  The query of the batch
  mode selects no mention that has a score.
\<close>

theorem analyzed_mentions_are_cache_hits:
  assumes "mentionIds body = Some ids" and "ids \<noteq> []"
  shows "case analyze_POST env (Some uid) body db of
           (resp, db', called) \<Rightarrow>
             scored_rows_kept (mentions db) (mentions db') \<and>
             (\<forall>m\<in>set (mentions db).
                sentiment_score m \<noteq> None \<and> m_user_id m = uid \<longrightarrow> m_id m \<notin> set called) \<and>
             length (results resp) = length ids \<and>
             (\<forall>i<length ids. \<forall>m s.
                single (filter (\<lambda>r. m_id r = ids ! i \<and> m_user_id r = uid) (mentions db)) = Some m \<and>
                sentiment_score m = Some s \<longrightarrow>
                results resp ! i = ItemCached (ids ! i) s (sentiment_label m) (sentiment_reasoning m)) \<and>
             (\<forall>u n. \<forall>m\<in>set (select_unanalyzed db u n). sentiment_score m = None)"
proof -
  obtain db' items called where run: "analyze_ids env uid db ids = (db', items, called)"
    by (cases "analyze_ids env uid db ids") auto
  have kept: "scored_rows_kept (mentions db) (mentions db')"
    using analyze_ids_kept[of db env uid ids] run by simp
  have log: "\<forall>m\<in>set (mentions db). sentiment_score m \<noteq> None \<and> m_user_id m = uid \<longrightarrow> m_id m \<notin> set called"
    using analyze_ids_called[of _ db uid env ids] run by auto
  have len: "length items = length ids"
    using analyze_ids_length[of env uid db ids] run by simp
  have hit: "\<forall>i<length ids. \<forall>m s.
      single (filter (\<lambda>r. m_id r = ids ! i \<and> m_user_id r = uid) (mentions db)) = Some m \<and>
      sentiment_score m = Some s \<longrightarrow>
      items ! i = ItemCached (ids ! i) s (sentiment_label m) (sentiment_reasoning m)"
    using analyze_ids_cached[of _ ids uid db _ _ env] run by auto
  have sel: "\<forall>u n. \<forall>m\<in>set (select_unanalyzed db u n). sentiment_score m = None"
    using select_unanalyzed_unscored by blast
  show ?thesis
    using assms run kept log len hit sel by (simp add: analyze_POST_def)
qed

theorem analyzed_mentions_are_cache_hits_witness:
  "mentionIds ids_request = Some [1, 2] \<and> [1, 2] \<noteq> ([] :: nat list) \<and>
   fst (analyze_POST strict_classifier (Some 1) ids_request one_scored_db) =
     ByIds [ItemCached 1 85 (Some Positive) (Some ''warm words''),
            ItemAnalyzed 2 \<lparr> score = 17 / 2, label = Positive, reasoning = ''warm words'',
                             confidence = Some (JNum (9 / 10)) \<rparr>] 1 1 0 \<and>
   snd (snd (analyze_POST strict_classifier (Some 1) ids_request one_scored_db)) = [2] \<and>
   (case analyze_POST strict_classifier (Some 1) ids_request one_scored_db of
      (resp, db', called) \<Rightarrow>
        scored_rows_kept (mentions one_scored_db) (mentions db') \<and>
        list_all (\<lambda>m. sentiment_score m = None \<or> m_user_id m \<noteq> 1 \<or> m_id m \<notin> set called)
                 (mentions one_scored_db) \<and>
        length (results resp) = length [1, 2 :: nat])"
proof -
  have h1: "mentionIds ids_request = Some [1, 2]" by (simp add: ids_request_def)
  have h2: "[1, 2] \<noteq> ([] :: nat list)" by simp
  have r: "fst (analyze_POST strict_classifier (Some 1) ids_request one_scored_db) =
     ByIds [ItemCached 1 85 (Some Positive) (Some ''warm words''),
            ItemAnalyzed 2 \<lparr> score = 17 / 2, label = Positive, reasoning = ''warm words'',
                             confidence = Some (JNum (9 / 10)) \<rparr>] 1 1 0"
    by code_simp
  have c: "snd (snd (analyze_POST strict_classifier (Some 1) ids_request one_scored_db)) = [2]"
    by code_simp
  show ?thesis
    using analyzed_mentions_are_cache_hits[OF h1 h2, where env = strict_classifier and uid = 1 and db = one_scored_db] h1 r c
    by (auto simp: list_all_iff split: prod.splits)
qed

lemma classify_and_store_item:
  "(\<exists>res. fst (snd (classify_and_store env uid db mid text)) = ItemAnalyzed mid res) \<or>
   (\<exists>e. fst (snd (classify_and_store env uid db mid text)) = ItemFailed mid e)"
  by (auto simp: classify_and_store_def split: sum.splits)

lemma analyze_batch_cons:
  "analyze_batch env uid db (m # rest) =
     (fst (analyze_batch env uid (fst (classify_and_store env uid db (m_id m) (m_content m))) rest),
      fst (snd (classify_and_store env uid db (m_id m) (m_content m)))
        # fst (snd (analyze_batch env uid (fst (classify_and_store env uid db (m_id m) (m_content m))) rest)),
      snd (snd (classify_and_store env uid db (m_id m) (m_content m)))
        @ snd (snd (analyze_batch env uid (fst (classify_and_store env uid db (m_id m) (m_content m))) rest)))"
  by (simp split: prod.splits)

declare analyze_batch.simps(2) [simp del]

lemma analyze_batch_items:
  "length (fst (snd (analyze_batch env uid db sel))) = length sel \<and>
   list_all fresh_or_failed (fst (snd (analyze_batch env uid db sel))) \<and>
   snd (snd (analyze_batch env uid db sel)) = map m_id sel"
proof (induction sel arbitrary: db)
  case Nil
  show ?case by simp
next
  case (Cons m rest)
  from classify_and_store_item[of env uid db "m_id m" "m_content m"]
  have "fresh_or_failed (fst (snd (classify_and_store env uid db (m_id m) (m_content m))))"
    unfolding fresh_or_failed_def by metis
  with Cons.IH show ?case
    by (simp add: analyze_batch_cons classify_and_store_called)
qed

lemma success_split:
  "length (filter success items) + length (filter (\<lambda>r. \<not> success r) items) = length items"
  by (induction items) auto

text \<open>
  Claim C8, as the code has it.  A batch call with \<^verbatim>\<open>batchSize = 10\<close> for a tenant with 15
  unscored mentions returns exactly 10 entries, each a success with a sentiment or a failure
  with an error string, after calling the classifier for the 10 selected mentions; and
  \<^verbatim>\<open>remaining\<close> is 10 minus the number of successes, that is the number of failed entries.
\<close>

theorem batch_of_ten:
  assumes "mentionIds body = None \<or> mentionIds body = Some []"
    and "ad_hoc_content body = None \<or> ad_hoc_content body = Some []"
    and "batchSize body = Some 10"
    and "length (unanalyzed db uid) = 15"
  shows "case analyze_POST env (Some uid) body db of
           (resp, db', called) \<Rightarrow>
             (\<exists>items a f. resp = Batch items a f f \<and>
                length items = 10 \<and> list_all fresh_or_failed items \<and>
                a = length (filter success items) \<and>
                f = length (filter (\<lambda>r. \<not> success r) items) \<and>
                a + f = 10 \<and>
                called = map m_id (select_unanalyzed db uid 10))"
proof -
  let ?sel = "select_unanalyzed db uid 10"
  have len: "length ?sel = 10" using assms(4) by (simp add: select_unanalyzed_def)
  then have ne: "?sel \<noteq> []" by auto
  obtain db' items called where run: "analyze_batch env uid db ?sel = (db', items, called)"
    by (cases "analyze_batch env uid db ?sel") auto
  from analyze_batch_items[of env uid db ?sel] run len
  have items: "length items = 10" "list_all fresh_or_failed items" "called = map m_id ?sel"
    by simp_all
  from success_split[of items] items(1)
  have split: "length (filter success items) + length (filter (\<lambda>r. \<not> success r) items) = 10"
    by simp
  then have rem: "10 - length (filter success items) = length (filter (\<lambda>r. \<not> success r) items)"
    by simp
  show ?thesis
    using assms(1,2,3) ne run items split rem len
    by (auto simp: analyze_POST_def Let_def)
qed

theorem batch_of_ten_witness:
  "(mentionIds batch_request = None \<or> mentionIds batch_request = Some []) \<and>
   (ad_hoc_content batch_request = None \<or> ad_hoc_content batch_request = Some []) \<and>
   batchSize batch_request = Some 10 \<and>
   length (unanalyzed fifteen_unscored_db 1) = 15 \<and>
   (case analyze_POST strict_classifier (Some 1) batch_request fifteen_unscored_db of
      (resp, db', called) \<Rightarrow>
        (\<exists>items a f. resp = Batch items a f f \<and>
           length items = 10 \<and> list_all fresh_or_failed items \<and>
           a = length (filter success items) \<and>
           f = length (filter (\<lambda>r. \<not> success r) items) \<and>
           a + f = 10 \<and>
           called = map m_id (select_unanalyzed fifteen_unscored_db 1 10)))"
proof -
  have h1: "mentionIds batch_request = None \<or> mentionIds batch_request = Some []"
    by (simp add: batch_request_def)
  have h2: "ad_hoc_content batch_request = None \<or> ad_hoc_content batch_request = Some []"
    by (simp add: batch_request_def)
  have h3: "batchSize batch_request = Some 10" by (simp add: batch_request_def)
  have h4: "length (unanalyzed fifteen_unscored_db 1) = 15"
    by code_simp
  show ?thesis
    using batch_of_ten[OF h1 h2 h3 h4, where env = strict_classifier] h1 h2 h3 h4 by blast
qed

text \<open>
  Claim C8 as stated fails on \<^verbatim>\<open>remaining\<close>: when the classifier fails for all ten
  mentions of the batch (here its key is not configured), \<^verbatim>\<open>remaining\<close> is 10, not at most 5.
\<close>

theorem remaining_counterexample:
  "length (unanalyzed fifteen_unscored_db 1) = 15 \<and>
   batchSize batch_request = Some 10 \<and>
   length (results (fst (analyze_POST unconfigured_classifier (Some 1) batch_request fifteen_unscored_db))) = 10 \<and>
   remaining (fst (analyze_POST unconfigured_classifier (Some 1) batch_request fifteen_unscored_db)) = 10 \<and>
   \<not> remaining (fst (analyze_POST unconfigured_classifier (Some 1) batch_request fifteen_unscored_db)) \<le> 5"
  by code_simp

text \<open>
  When the classifier succeeds for all ten mentions of the batch, \<^verbatim>\<open>remaining\<close> is 0 while
  five of the tenant's mentions are still unscored.
\<close>

lemma remaining_ignores_rest:
  "remaining (fst (analyze_POST strict_classifier (Some 1) batch_request fifteen_unscored_db)) = 0 \<and>
   length (unanalyzed (fst (snd (analyze_POST strict_classifier (Some 1) batch_request
                                   fifteen_unscored_db))) 1) = 5"
  by code_simp

section \<open>Properties of the scheduling route\<close>

lemma check_limit_at_limit:
  "schedule_limit (subscription_tier biz) \<le> scheduled_count db (b_id biz) \<Longrightarrow>
   check_limit_and_insert now body biz acc c hs db =
     (LimitReached 429 (scheduled_count db (b_id biz)) (schedule_limit (subscription_tier biz))
        (subscription_tier biz), db)"
  by (simp add: check_limit_and_insert_def Let_def)

lemma fold_max_upper: "\<forall>x\<in>set xs. x \<le> fold max xs (a::nat)"
proof (induction xs arbitrary: a)
  case Nil
  show ?case by simp
next
  case (Cons y ys)
  have "max y a \<le> fold max ys (max y a)"
  proof (induction ys arbitrary: a y)
    case Nil show ?case by simp
  next
    case (Cons z zs)
    have "max y a \<le> max z (max y a)" by simp
    also have "\<dots> \<le> fold max zs (max z (max y a))" by (rule Cons.IH)
    finally show ?case by simp
  qed
  with Cons.IH[of "max y a"] show ?case by auto
qed

lemma fresh_post_id_new: "fresh_post_id ps \<notin> sp_id ` set ps"
proof
  assume "fresh_post_id ps \<in> sp_id ` set ps"
  then have "fresh_post_id ps \<in> set (map sp_id ps)" by simp
  with fold_max_upper[of "map sp_id ps" 0] have "fresh_post_id ps \<le> fold max (map sp_id ps) 0"
    by blast
  then show False by (simp add: fresh_post_id_def)
qed

lemma check_limit_below:
  assumes "scheduled_count db (b_id biz) < schedule_limit (subscription_tier biz)"
    and "scheduledTime body = Some t"
  shows "\<exists>row db'. check_limit_and_insert now body biz acc c hs db = (PostScheduled row, db') \<and>
           scheduled_posts db' = scheduled_posts db @ [row] \<and>
           sp_status row = Scheduled \<and> sp_business_id row = b_id biz \<and>
           scheduled_time row = t \<and> sp_social_account_id row = ca_id acc \<and>
           sp_content row = c \<and> sp_hashtags row = hs \<and>
           sp_id row \<notin> sp_id ` set (scheduled_posts db) \<and>
           scheduled_count db' (b_id biz) = Suc (scheduled_count db (b_id biz))"
  using assms fresh_post_id_new[of "scheduled_posts db"]
  by (cases "postId body")
     (auto simp: check_limit_and_insert_def Let_def scheduled_count_def)

text \<open>
  Claim C6.  A request whose scheduled time is not after the clock creates no row: the store
  is left as it was; when the request reaches the validation of the time (see
  \<open>reaches_time_check\<close>) the response is the error 400 ``Scheduled time must be in the
  future''.  A request whose scheduled time is after the clock never gets that response.
\<close>

theorem schedule_rejects_past_time:
  assumes "scheduledTime body = Some t"
  shows "(t \<le> now \<longrightarrow>
            snd (schedule_POST now user body db) = db \<and>
            (reaches_time_check user body db \<longrightarrow>
               schedule_POST now user body db =
                 (ScheduleError 400 ''Scheduled time must be in the future'', db))) \<and>
         (now < t \<longrightarrow>
            fst (schedule_POST now user body db) \<noteq>
              ScheduleError 400 ''Scheduled time must be in the future'')"
proof (intro conjI impI)
  assume "t \<le> now"
  with assms show "snd (schedule_POST now user body db) = db"
    by (auto simp: schedule_POST_def split: option.splits)
next
  assume "t \<le> now" and "reaches_time_check user body db"
  with assms show "schedule_POST now user body db =
      (ScheduleError 400 ''Scheduled time must be in the future'', db)"
    by (auto simp: schedule_POST_def reaches_time_check_def split: option.splits)
next
  assume "now < t"
  have other: "fst (check_limit_and_insert now body biz acc c hs db) \<noteq>
      ScheduleError 400 ''Scheduled time must be in the future''" for biz acc c hs
    by (auto simp: check_limit_and_insert_def Let_def split: option.splits)
  from \<open>now < t\<close> assms other
  show "fst (schedule_POST now user body db) \<noteq>
      ScheduleError 400 ''Scheduled time must be in the future''"
    by (auto simp: schedule_POST_def split: option.splits)
qed

theorem schedule_rejects_past_time_witness:
  "scheduledTime yesterday_request = Some 50 \<and> (50::int) \<le> 100 \<and>
   reaches_time_check (Some 1) yesterday_request (starter_db 3) \<and>
   schedule_POST 100 (Some 1) yesterday_request (starter_db 3) =
     (ScheduleError 400 ''Scheduled time must be in the future'', starter_db 3) \<and>
   snd (schedule_POST 100 None yesterday_request (starter_db 3)) = starter_db 3 \<and>
   scheduledTime tomorrow_request = Some 86400000 \<and> (100::int) < 86400000 \<and>
   fst (schedule_POST 100 (Some 1) tomorrow_request (starter_db 3)) \<noteq>
     ScheduleError 400 ''Scheduled time must be in the future''"
proof -
  have h1: "scheduledTime yesterday_request = Some 50" by (simp add: yesterday_request_def)
  have h2: "reaches_time_check (Some 1) yesterday_request (starter_db 3)" by code_simp
  have h3: "scheduledTime tomorrow_request = Some 86400000" by (simp add: tomorrow_request_def)
  show ?thesis
    using schedule_rejects_past_time[OF h1, of 100 "Some 1" "starter_db 3"]
          schedule_rejects_past_time[OF h1, of 100 None "starter_db 3"]
          schedule_rejects_past_time[OF h3, of 100 "Some 1" "starter_db 3"] h1 h2 h3
    by simp
qed

text \<open>
  Claim C7.  The limits are 30 for the starter tier and 100 for the professional tier.  Take
  a request that passes the earlier checks, with a scheduled time in the future and, if it
  names a generated post, one the tenant has.  If the tenant's number of scheduled rows has
  reached the limit, the response is 429 with that number and the limit, and the store is
  left as it was.  If the number is below the limit, the response is the new row, the row is
  appended with status \<^verbatim>\<open>scheduled\<close>, and the number of scheduled rows grows by one.
\<close>

theorem schedule_tier_limit:
  assumes "reaches_time_check (Some uid) body db"
    and "single (filter (\<lambda>b. b_user_id b = uid) (businesses db)) = Some biz"
    and "scheduledTime body = Some t" and "now < t"
    and "case postId body of
           None \<Rightarrow> True
         | Some pid \<Rightarrow>
             single (filter (\<lambda>g. gp_id g = pid \<and> gp_business_id g = b_id biz) (generated_posts db)) \<noteq> None"
  shows "schedule_limit (Some Starter) = 30 \<and> schedule_limit (Some Professional) = 100 \<and>
         (schedule_limit (subscription_tier biz) \<le> scheduled_count db (b_id biz) \<longrightarrow>
            schedule_POST now (Some uid) body db =
              (LimitReached 429 (scheduled_count db (b_id biz))
                 (schedule_limit (subscription_tier biz)) (subscription_tier biz), db)) \<and>
         (scheduled_count db (b_id biz) < schedule_limit (subscription_tier biz) \<longrightarrow>
            (\<exists>row db'. schedule_POST now (Some uid) body db = (PostScheduled row, db') \<and>
               scheduled_posts db' = scheduled_posts db @ [row] \<and>
               sp_status row = Scheduled \<and> sp_business_id row = b_id biz \<and>
               scheduled_time row = t \<and>
               scheduled_count db' (b_id biz) = Suc (scheduled_count db (b_id biz))))"
proof -
  from assms(1,2) obtain acc where acc:
    "single (filter (\<lambda>a. ca_business_id a = b_id biz \<and> ca_platform a = sr_platform body \<and>
                         ca_is_active a) (connected_accounts db)) = Some acc"
    and sub: "subscribed biz" and giv: "given (sr_content body) \<or> postId body \<noteq> None"
    by (auto simp: reaches_time_check_def)
  obtain c hs where run: "schedule_POST now (Some uid) body db =
      check_limit_and_insert now body biz acc c hs db"
    using assms(2-5) acc sub giv
    by (auto simp: schedule_POST_def split: option.splits)
  have "schedule_limit (Some Starter) = 30" "schedule_limit (Some Professional) = 100"
    by (simp_all add: schedule_limit_def)
  moreover have "schedule_limit (subscription_tier biz) \<le> scheduled_count db (b_id biz) \<longrightarrow>
      schedule_POST now (Some uid) body db =
        (LimitReached 429 (scheduled_count db (b_id biz))
           (schedule_limit (subscription_tier biz)) (subscription_tier biz), db)"
    by (simp add: run check_limit_at_limit)
  moreover have "scheduled_count db (b_id biz) < schedule_limit (subscription_tier biz) \<longrightarrow>
      (\<exists>row db'. schedule_POST now (Some uid) body db = (PostScheduled row, db') \<and>
         scheduled_posts db' = scheduled_posts db @ [row] \<and>
         sp_status row = Scheduled \<and> sp_business_id row = b_id biz \<and>
         scheduled_time row = t \<and>
         scheduled_count db' (b_id biz) = Suc (scheduled_count db (b_id biz)))"
  proof
    assume "scheduled_count db (b_id biz) < schedule_limit (subscription_tier biz)"
    from check_limit_below[OF this assms(3), of now acc c hs]
    show "\<exists>row db'. schedule_POST now (Some uid) body db = (PostScheduled row, db') \<and>
         scheduled_posts db' = scheduled_posts db @ [row] \<and>
         sp_status row = Scheduled \<and> sp_business_id row = b_id biz \<and>
         scheduled_time row = t \<and>
         scheduled_count db' (b_id biz) = Suc (scheduled_count db (b_id biz))"
      unfolding run by blast
  qed
  ultimately show ?thesis by blast
qed

theorem schedule_tier_limit_witness:
  "reaches_time_check (Some 1) tomorrow_request (starter_db 30) \<and>
   single (filter (\<lambda>b. b_user_id b = 1) (businesses (starter_db 30))) = Some starter_business \<and>
   scheduledTime tomorrow_request = Some 86400000 \<and> (100::int) < 86400000 \<and>
   postId tomorrow_request = None \<and>
   scheduled_count (starter_db 30) (b_id starter_business) = 30 \<and>
   schedule_limit (subscription_tier starter_business) = 30 \<and>
   schedule_POST 100 (Some 1) tomorrow_request (starter_db 30) =
     (LimitReached 429 30 30 (Some Starter), starter_db 30) \<and>
   reaches_time_check (Some 1) tomorrow_request (starter_db 29) \<and>
   single (filter (\<lambda>b. b_user_id b = 1) (businesses (starter_db 29))) = Some starter_business \<and>
   scheduled_count (starter_db 29) (b_id starter_business) = 29 \<and>
   (\<exists>row db'. schedule_POST 100 (Some 1) tomorrow_request (starter_db 29) = (PostScheduled row, db') \<and>
      scheduled_posts db' = scheduled_posts (starter_db 29) @ [row] \<and>
      sp_status row = Scheduled \<and> scheduled_count db' (b_id starter_business) = 30)"
proof -
  have a1: "reaches_time_check (Some 1) tomorrow_request (starter_db 30)" by code_simp
  have a2: "single (filter (\<lambda>b. b_user_id b = 1) (businesses (starter_db 30))) = Some starter_business"
    by code_simp
  have a3: "scheduledTime tomorrow_request = Some 86400000" by (simp add: tomorrow_request_def)
  have a4: "(100::int) < 86400000" by simp
  have p: "postId tomorrow_request = None" by (simp add: tomorrow_request_def)
  have a5: "case postId tomorrow_request of None \<Rightarrow> True
     | Some pid \<Rightarrow> single (filter (\<lambda>g. gp_id g = pid \<and> gp_business_id g = b_id starter_business)
                         (generated_posts (starter_db 30))) \<noteq> None"
    by (simp add: p)
  have c30: "scheduled_count (starter_db 30) (b_id starter_business) = 30" by code_simp
  have lim: "schedule_limit (subscription_tier starter_business) = 30" by code_simp
  have tier: "subscription_tier starter_business = Some Starter" by (simp add: starter_business_def)
  have b1: "reaches_time_check (Some 1) tomorrow_request (starter_db 29)" by code_simp
  have b2: "single (filter (\<lambda>b. b_user_id b = 1) (businesses (starter_db 29))) = Some starter_business"
    by code_simp
  have b5: "case postId tomorrow_request of None \<Rightarrow> True
     | Some pid \<Rightarrow> single (filter (\<lambda>g. gp_id g = pid \<and> gp_business_id g = b_id starter_business)
                         (generated_posts (starter_db 29))) \<noteq> None"
    by (simp add: p)
  have c29: "scheduled_count (starter_db 29) (b_id starter_business) = 29" by code_simp
  from schedule_tier_limit[OF a1 a2 a3 a4 a5] c30 lim tier
  have full: "schedule_POST 100 (Some 1) tomorrow_request (starter_db 30) =
     (LimitReached 429 30 30 (Some Starter), starter_db 30)" by simp
  from schedule_tier_limit[OF b1 b2 a3 a4 b5] c29 lim
  have room: "\<exists>row db'. schedule_POST 100 (Some 1) tomorrow_request (starter_db 29) = (PostScheduled row, db') \<and>
      scheduled_posts db' = scheduled_posts (starter_db 29) @ [row] \<and>
      sp_status row = Scheduled \<and> scheduled_count db' (b_id starter_business) = 30"
    by auto
  show ?thesis using a1 a2 a3 a4 p c30 lim full b1 b2 c29 room by blast
qed

lemma check_limit_posts:
  "scheduled_posts (snd (check_limit_and_insert now body biz acc c hs db)) = scheduled_posts db \<or>
   (\<exists>row. scheduled_posts (snd (check_limit_and_insert now body biz acc c hs db))
             = scheduled_posts db @ [row] \<and> sp_status row = Scheduled)"
  by (auto simp: check_limit_and_insert_def Let_def split: option.splits)

lemma post_posts:
  "scheduled_posts (snd (schedule_POST now user body db)) = scheduled_posts db \<or>
   (\<exists>row. scheduled_posts (snd (schedule_POST now user body db)) = scheduled_posts db @ [row] \<and>
          sp_status row = Scheduled)"
  using check_limit_posts[of now body _ _ _ _ db]
  by (auto simp: schedule_POST_def split: option.splits)

lemma patch_status:
  "map sp_status (scheduled_posts (snd (schedule_PATCH user pid body db))) =
   map sp_status (scheduled_posts db)"
  by (auto simp: schedule_PATCH_def Let_def apply_update_data_def split: option.splits)

lemma delete_status:
  "status_kept_or_cancelled (scheduled_posts db) (scheduled_posts (snd (schedule_DELETE user pid db)))"
  by (auto simp: schedule_DELETE_def status_kept_or_cancelled_def list_all2_map2
           split: option.splits intro!: list_all2_all_nthI)

text \<open>
  Claim C10, as the code has it.  The handlers change the status of a stored post in one way
  only: \<^verbatim>\<open>POST\<close> leaves the stored posts as they are or appends one with status
  \<^verbatim>\<open>scheduled\<close>, \<^verbatim>\<open>PATCH\<close> changes no status, and \<^verbatim>\<open>DELETE\<close> leaves each row's status or
  sets it to \<^verbatim>\<open>cancelled\<close>.  The cancel operation of a tenant with a business keeps every row
  and sets the status of every row of that tenant with the given id to \<^verbatim>\<open>cancelled\<close>,
  whatever the status was.
\<close>

theorem cancel_from_any_status:
  "(scheduled_posts (snd (schedule_POST now user body db)) = scheduled_posts db \<or>
    (\<exists>row. scheduled_posts (snd (schedule_POST now user body db)) = scheduled_posts db @ [row] \<and>
           sp_status row = Scheduled)) \<and>
   map sp_status (scheduled_posts (snd (schedule_PATCH user pid patch db))) =
     map sp_status (scheduled_posts db) \<and>
   status_kept_or_cancelled (scheduled_posts db) (scheduled_posts (snd (schedule_DELETE user pid db))) \<and>
   (single (filter (\<lambda>b. b_user_id b = uid) (businesses db)) = Some biz \<longrightarrow>
      fst (schedule_DELETE (Some uid) (Some i) db) = PostCancelled \<and>
      length (scheduled_posts (snd (schedule_DELETE (Some uid) (Some i) db))) = length (scheduled_posts db) \<and>
      (\<forall>p\<in>set (scheduled_posts db). sp_id p = i \<and> sp_business_id p = b_id biz \<longrightarrow>
         p\<lparr>sp_status := Cancelled\<rparr> \<in> set (scheduled_posts (snd (schedule_DELETE (Some uid) (Some i) db)))))"
  using post_posts[of now user body db] patch_status[of user pid patch db] delete_status[of db user pid]
  by (auto simp: schedule_DELETE_def intro!: image_eqI)

theorem cancel_from_any_status_witness:
  "single (filter (\<lambda>b. b_user_id b = 1) (businesses published_db)) = Some starter_business \<and>
   fst (schedule_DELETE (Some 1) (Some 2) published_db) = PostCancelled \<and>
   length (scheduled_posts (snd (schedule_DELETE (Some 1) (Some 2) published_db))) =
     length (scheduled_posts published_db) \<and>
   status_kept_or_cancelled (scheduled_posts published_db)
     (scheduled_posts (snd (schedule_DELETE (Some 1) (Some 2) published_db))) \<and>
   map sp_status (scheduled_posts (snd (schedule_DELETE (Some 1) (Some 2) published_db))) =
     [Published, Cancelled]"
proof -
  have h: "single (filter (\<lambda>b. b_user_id b = 1) (businesses published_db)) = Some starter_business"
    by code_simp
  have e: "map sp_status (scheduled_posts (snd (schedule_DELETE (Some 1) (Some 2) published_db))) =
     [Published, Cancelled]" by code_simp
  from cancel_from_any_status[where db = published_db and uid = 1 and biz = starter_business
      and i = 2 and user = "Some 1" and pid = "Some 2"] h e
  show ?thesis by blast
qed

text \<open>
  Claim C10 as stated fails: cancelling a post that is \<^verbatim>\<open>published\<close>, or one that is
  \<^verbatim>\<open>failed\<close>, sets its status to \<^verbatim>\<open>cancelled\<close>.
\<close>

theorem cancel_published_counterexample:
  "map sp_status (scheduled_posts published_db) = [Published, Failed] \<and>
   fst (schedule_DELETE (Some 1) (Some 1) published_db) = PostCancelled \<and>
   map sp_status (scheduled_posts (snd (schedule_DELETE (Some 1) (Some 1) published_db))) =
     [Cancelled, Failed] \<and>
   map sp_status (scheduled_posts (snd (schedule_DELETE (Some 1) (Some 2) published_db))) =
     [Published, Cancelled]"
  by code_simp

section \<open>Properties of the content generation route\<close>

lemma call_and_save_shape:
  "(\<exists>d. call_and_save env now body biz u l info =
         (GenerateFailed 500 ''Failed to generate content'' d, [LlmCall (build_prompt body info)])) \<or>
   (\<exists>ps. call_and_save env now body biz u l info =
         (Generated ps
            (if insert_accepted env (map (post_to_save (b_id biz) (requested_platform body) now) ps)
             then Some (map (post_to_save (b_id biz) (requested_platform body) now) ps) else None)
            (u + requested_count body) l (l - (u + requested_count body)),
          [LlmCall (build_prompt body info),
           InsertPosts (map (post_to_save (b_id biz) (requested_platform body) now) ps),
           UpsertUsage (b_id biz) (u + requested_count body) now]))"
proof (cases "create_message env (build_prompt body info)")
  case (Inl msg)
  then show ?thesis by (simp add: call_and_save_def)
next
  case t: (Inr textContent)
  show ?thesis
  proof (cases "parse_reply env (clean_reply textContent)")
    case (Inl msg)
    with t show ?thesis by (simp add: call_and_save_def)
  next
    case r: (Inr response)
    show ?thesis
    proof (cases "posts_of response")
      case None
      with t r show ?thesis by (simp add: call_and_save_def)
    next
      case ps: (Some ps)
      show ?thesis
      proof (cases "transform_posts 0 ps")
        case None
        with t r ps show ?thesis by (simp add: call_and_save_def)
      next
        case (Some generatedPosts)
        with t r ps show ?thesis by (simp add: call_and_save_def Let_def)
      qed
    qed
  qed
qed

lemma call_and_save_effects:
  "\<exists>p rest. snd (call_and_save env now body biz u l info) = LlmCall p # rest \<and>
            p_postCount p = requested_count body \<and> \<not> list_ex is_llm_call rest"
proof -
  have n: "p_postCount (build_prompt body info) = requested_count body"
    by (simp add: build_prompt_def)
  from call_and_save_shape[of env now body biz u l info] show ?thesis
  proof
    assume "\<exists>d. call_and_save env now body biz u l info =
         (GenerateFailed 500 ''Failed to generate content'' d, [LlmCall (build_prompt body info)])"
    then obtain d where "snd (call_and_save env now body biz u l info) = LlmCall (build_prompt body info) # []"
      by auto
    with n show ?thesis by (intro exI[of _ "build_prompt body info"] exI[of _ "[]"]) simp
  next
    assume "\<exists>ps. call_and_save env now body biz u l info =
         (Generated ps
            (if insert_accepted env (map (post_to_save (b_id biz) (requested_platform body) now) ps)
             then Some (map (post_to_save (b_id biz) (requested_platform body) now) ps) else None)
            (u + requested_count body) l (l - (u + requested_count body)),
          [LlmCall (build_prompt body info),
           InsertPosts (map (post_to_save (b_id biz) (requested_platform body) now) ps),
           UpsertUsage (b_id biz) (u + requested_count body) now])"
    then obtain ps where "snd (call_and_save env now body biz u l info) =
        LlmCall (build_prompt body info) #
          [InsertPosts (map (post_to_save (b_id biz) (requested_platform body) now) ps),
           UpsertUsage (b_id biz) (u + requested_count body) now]"
      by auto
    with n show ?thesis
      by (intro exI[of _ "build_prompt body info"]
                exI[of _ "[InsertPosts (map (post_to_save (b_id biz) (requested_platform body) now) ps),
                           UpsertUsage (b_id biz) (u + requested_count body) now]"]) simp
  qed
qed

lemma call_and_save_generated:
  assumes "call_and_save env now body biz u l info = (Generated ps saved cur lmt left, effects)"
  shows "effects = [LlmCall (build_prompt body info),
                InsertPosts (map (post_to_save (b_id biz) (requested_platform body) now) ps),
                UpsertUsage (b_id biz) (u + requested_count body) now] \<and>
         cur = u + requested_count body \<and> lmt = l \<and> left = l - (u + requested_count body) \<and>
         saved = (if insert_accepted env (map (post_to_save (b_id biz) (requested_platform body) now) ps)
                  then Some (map (post_to_save (b_id biz) (requested_platform body) now) ps)
                  else None)"
  using call_and_save_shape[of env now body biz u l info] unfolding assms
  by (elim disjE exE) simp_all

text \<open>
  Claim C4.  The limits are 50 posts a month for the starter tier and 200 for the
  professional tier.  For an authenticated tenant with an active or trialing subscription:
  when the month's usage plus the requested number of posts exceeds the limit, the response
  is 429 with the usage and the limit, and the handler has made no call and no write, so the
  model was not called; when it does not exceed the limit and the industry of the request
  resolves (a preset, or \<^verbatim>\<open>custom\<close> with a description), the first thing the handler does
  is call the model, once, asking for the requested number of posts.
\<close>

theorem quota_rejected_before_llm:
  assumes "single (filter (\<lambda>b. b_user_id b = uid) (gen_businesses env)) = Some biz"
    and "subscribed biz"
  shows "generation_limit (Some Starter) = 50 \<and> generation_limit (Some Professional) = 200 \<and>
         (generation_limit (subscription_tier biz)
            < or_zero (month_usage env (b_id biz)) + requested_count body \<longrightarrow>
            generate_POST env now (Some uid) body =
              (QuotaExceeded 429 (or_zero (month_usage env (b_id biz)))
                 (generation_limit (subscription_tier biz)) (subscription_tier biz), [])) \<and>
         (or_zero (month_usage env (b_id biz)) + requested_count body
            \<le> generation_limit (subscription_tier biz) \<and>
          industry_of body (requested_tone body) \<noteq> None \<longrightarrow>
            (\<exists>p rest. snd (generate_POST env now (Some uid) body) = LlmCall p # rest \<and>
                       p_postCount p = requested_count body \<and> \<not> list_ex is_llm_call rest))"
proof (intro conjI impI)
  show "generation_limit (Some Starter) = 50" "generation_limit (Some Professional) = 200"
    by (simp_all add: generation_limit_def)
next
  assume "generation_limit (subscription_tier biz)
            < or_zero (month_usage env (b_id biz)) + requested_count body"
  with assms show "generate_POST env now (Some uid) body =
              (QuotaExceeded 429 (or_zero (month_usage env (b_id biz)))
                 (generation_limit (subscription_tier biz)) (subscription_tier biz), [])"
    by (simp add: generate_POST_def Let_def)
next
  assume a: "or_zero (month_usage env (b_id biz)) + requested_count body
            \<le> generation_limit (subscription_tier biz) \<and>
          industry_of body (requested_tone body) \<noteq> None"
  then obtain info where info: "industry_of body (requested_tone body) = Some info" by auto
  from a assms info have "generate_POST env now (Some uid) body =
      call_and_save env now body biz (or_zero (month_usage env (b_id biz)))
        (generation_limit (subscription_tier biz)) info"
    by (simp add: generate_POST_def Let_def)
  with call_and_save_effects
  show "\<exists>p rest. snd (generate_POST env now (Some uid) body) = LlmCall p # rest \<and>
                       p_postCount p = requested_count body \<and> \<not> list_ex is_llm_call rest"
    by simp
qed

theorem quota_rejected_before_llm_witness:
  "single (filter (\<lambda>b. b_user_id b = 1) (gen_businesses (studio_generator 44))) = Some starter_business \<and>
   subscribed starter_business \<and>
   generation_limit (subscription_tier starter_business)
     < or_zero (month_usage (studio_generator 44) (b_id starter_business)) + requested_count week_request \<and>
   generate_POST (studio_generator 44) 1000 (Some 1) week_request =
     (QuotaExceeded 429 44 50 (Some Starter), []) \<and>
   single (filter (\<lambda>b. b_user_id b = 1) (gen_businesses (studio_generator 43))) = Some starter_business \<and>
   or_zero (month_usage (studio_generator 43) (b_id starter_business)) + requested_count week_request
     \<le> generation_limit (subscription_tier starter_business) \<and>
   industry_of week_request (requested_tone week_request) \<noteq> None \<and>
   (\<exists>p rest. snd (generate_POST (studio_generator 43) 1000 (Some 1) week_request) = LlmCall p # rest \<and>
              p_postCount p = 7 \<and> \<not> list_ex is_llm_call rest)"
proof -
  have a1: "single (filter (\<lambda>b. b_user_id b = 1) (gen_businesses (studio_generator 44))) = Some starter_business"
    by code_simp
  have a2: "subscribed starter_business" by code_simp
  have a3: "generation_limit (subscription_tier starter_business)
     < or_zero (month_usage (studio_generator 44) (b_id starter_business)) + requested_count week_request"
    by code_simp
  have v1: "or_zero (month_usage (studio_generator 44) (b_id starter_business)) = 44" by code_simp
  have v2: "generation_limit (subscription_tier starter_business) = 50" by code_simp
  have v3: "subscription_tier starter_business = Some Starter" by code_simp
  have b1: "single (filter (\<lambda>b. b_user_id b = 1) (gen_businesses (studio_generator 43))) = Some starter_business"
    by code_simp
  have b3: "or_zero (month_usage (studio_generator 43) (b_id starter_business)) + requested_count week_request
     \<le> generation_limit (subscription_tier starter_business)"
    by code_simp
  have b4: "industry_of week_request (requested_tone week_request) \<noteq> None" by code_simp
  have n: "requested_count week_request = 7" by code_simp
  from quota_rejected_before_llm[OF a1 a2, of week_request 1000] a3 v1 v2 v3
  have over: "generate_POST (studio_generator 44) 1000 (Some 1) week_request =
     (QuotaExceeded 429 44 50 (Some Starter), [])" by simp
  from quota_rejected_before_llm[OF b1 a2, of week_request 1000] b3 b4 n
  have within: "\<exists>p rest. snd (generate_POST (studio_generator 43) 1000 (Some 1) week_request) = LlmCall p # rest \<and>
              p_postCount p = 7 \<and> \<not> list_ex is_llm_call rest" by simp
  show ?thesis using a1 a2 a3 over b1 b3 b4 within by blast
qed

lemma transform_posts_read:
  "transform_posts k js = Some ps \<Longrightarrow>
   length ps = length js \<and>
   (\<forall>i<length js. js ! i \<noteq> JNull \<and> post_index (ps ! i) = k + i \<and>
      post_content (ps ! i) = (case js ! i of JObj kvs \<Rightarrow> map_of kvs ''content'' | _ \<Rightarrow> None))"
proof (induction js arbitrary: k ps)
  case Nil
  then show ?case by simp
next
  case (Cons j js)
  from Cons.prems obtain p ps' where p: "transform_post k j = Some p"
    and ps': "transform_posts (Suc k) js = Some ps'" and ps: "ps = p # ps'"
    by (auto split: option.splits)
  from p have head: "j \<noteq> JNull \<and> post_index p = k \<and>
      post_content p = (case j of JObj kvs \<Rightarrow> map_of kvs ''content'' | _ \<Rightarrow> None)"
    by (cases j) (auto simp: transform_post_def properties_def)
  from Cons.IH[OF ps'] have len: "length ps' = length js"
    and tail: "\<forall>i<length js. js ! i \<noteq> JNull \<and> post_index (ps' ! i) = Suc k + i \<and>
      post_content (ps' ! i) = (case js ! i of JObj kvs \<Rightarrow> map_of kvs ''content'' | _ \<Rightarrow> None)"
    by simp_all
  show ?case
  proof (intro conjI allI impI)
    show "length ps = length (j # js)" using ps len by simp
  next
    fix i assume "i < length (j # js)"
    then show "(j # js) ! i \<noteq> JNull" using head tail by (cases i) auto
  next
    fix i assume "i < length (j # js)"
    then show "post_index (ps ! i) = k + i" using head tail ps by (cases i) auto
  next
    fix i assume "i < length (j # js)"
    then show "post_content (ps ! i) =
        (case (j # js) ! i of JObj kvs \<Rightarrow> map_of kvs ''content'' | _ \<Rightarrow> None)"
      using head tail ps by (cases i) auto
  qed
qed

lemma call_and_save_success:
  assumes "call_and_save env now body biz u l info = (Generated ps saved cur lmt left, effects)"
  shows "\<exists>textContent kvs js.
           create_message env (build_prompt body info) = Inr textContent \<and>
           parse_reply env (clean_reply textContent) = Inr (JObj kvs) \<and>
           map_of kvs ''posts'' = Some (JArr js) \<and>
           transform_posts 0 js = Some ps"
proof (cases "create_message env (build_prompt body info)")
  case (Inl msg)
  with assms show ?thesis by (simp add: call_and_save_def)
next
  case t: (Inr textContent)
  show ?thesis
  proof (cases "parse_reply env (clean_reply textContent)")
    case (Inl msg)
    with t assms show ?thesis by (simp add: call_and_save_def)
  next
    case r: (Inr response)
    show ?thesis
    proof (cases "posts_of response")
      case None
      with t r assms show ?thesis by (simp add: call_and_save_def)
    next
      case js: (Some js)
      then obtain kvs where resp: "response = JObj kvs" and posts: "map_of kvs ''posts'' = Some (JArr js)"
        by (auto simp: posts_of_def split: json.splits option.splits)
      show ?thesis
      proof (cases "transform_posts 0 js")
        case None
        with t r js assms show ?thesis by (simp add: call_and_save_def)
      next
        case (Some generatedPosts)
        with t r js assms have "generatedPosts = ps" by (simp add: call_and_save_def Let_def)
        with Some t r resp posts show ?thesis by blast
      qed
    qed
  qed
qed

text \<open>
  Claim C5, as the code has it.  Whenever the handler answers with the generated posts, it
  has called the model asking for \<^verbatim>\<open>postCount\<close> posts (7 when the request gives none),
  read the array \<^verbatim>\<open>posts\<close> of the parsed reply, and issued one insertion with one row for
  each element of that array, in order, each with status \<^verbatim>\<open>draft\<close> and the fields of the
  post read from that element; then it has upserted the usage as the month's usage plus
  \<^verbatim>\<open>postCount\<close>, whatever the number of posts in the reply.  The rows are stored when the
  store accepts the insertion; when it refuses, the handler answers all the same, with no
  saved posts.
\<close>

theorem usage_incremented_by_request:
  assumes "generate_POST env now user body = (Generated ps saved cur lmt left, effects)"
  shows "\<exists>uid biz p rows textContent kvs js.
           user = Some uid \<and>
           single (filter (\<lambda>b. b_user_id b = uid) (gen_businesses env)) = Some biz \<and>
           effects = [LlmCall p, InsertPosts rows, UpsertUsage (b_id biz) cur now] \<and>
           cur = (case month_usage env (b_id biz) of None \<Rightarrow> 0 | Some k \<Rightarrow> k) +
                 (case postCount body of None \<Rightarrow> 7 | Some n \<Rightarrow> n) \<and>
           p_postCount p = (case postCount body of None \<Rightarrow> 7 | Some n \<Rightarrow> n) \<and>
           create_message env p = Inr textContent \<and>
           parse_reply env (clean_reply textContent) = Inr (JObj kvs) \<and>
           map_of kvs ''posts'' = Some (JArr js) \<and>
           length ps = length js \<and> length rows = length js \<and>
           (\<forall>i<length js.
              post_index (ps ! i) = i \<and>
              post_content (ps ! i) = (case js ! i of JObj f \<Rightarrow> map_of f ''content'' | _ \<Rightarrow> None) \<and>
              dr_status (rows ! i) = Draft \<and>
              dr_business_id (rows ! i) = b_id biz \<and>
              dr_platform (rows ! i) = (case g_platform body of None \<Rightarrow> ''instagram'' | Some pf \<Rightarrow> pf) \<and>
              dr_content (rows ! i) = post_content (ps ! i) \<and>
              dr_hashtags (rows ! i) = post_hashtags (ps ! i) \<and>
              dr_cta (rows ! i) = post_cta (ps ! i) \<and>
              dr_image_prompt (rows ! i) = imagePrompt (ps ! i) \<and>
              dr_best_time_to_post (rows ! i) = bestTimeToPost (ps ! i) \<and>
              dr_estimated_engagement (rows ! i) = estimatedEngagement (ps ! i) \<and>
              dr_generated_at (rows ! i) = now) \<and>
           saved = (if insert_accepted env rows then Some rows else None)"
proof -
  from assms obtain uid where uid: "user = Some uid"
    by (auto simp: generate_POST_def split: option.splits)
  from assms uid obtain biz where
    biz: "single (filter (\<lambda>b. b_user_id b = uid) (gen_businesses env)) = Some biz"
    by (auto simp: generate_POST_def split: option.splits)
  from assms uid biz obtain info where
    run: "call_and_save env now body biz (or_zero (month_usage env (b_id biz)))
            (generation_limit (subscription_tier biz)) info = (Generated ps saved cur lmt left, effects)"
    by (simp add: generate_POST_def Let_def split: option.splits if_splits)
  define rows where "rows = map (post_to_save (b_id biz) (requested_platform body) now) ps"
  from call_and_save_generated[OF run]
  have cur: "cur = (case month_usage env (b_id biz) of None \<Rightarrow> 0 | Some k \<Rightarrow> k) +
                 (case postCount body of None \<Rightarrow> 7 | Some n \<Rightarrow> n)"
    and eff0: "effects = [LlmCall (build_prompt body info), InsertPosts rows,
                 UpsertUsage (b_id biz) (or_zero (month_usage env (b_id biz)) + requested_count body) now]"
    and cur0: "cur = or_zero (month_usage env (b_id biz)) + requested_count body"
    and saved: "saved = (if insert_accepted env rows then Some rows else None)"
    by (simp_all add: rows_def or_zero_def requested_count_def)
  from eff0 cur0 have eff: "effects = [LlmCall (build_prompt body info), InsertPosts rows,
                 UpsertUsage (b_id biz) cur now]"
    by simp
  have asked: "p_postCount (build_prompt body info) = (case postCount body of None \<Rightarrow> 7 | Some n \<Rightarrow> n)"
    by (simp add: build_prompt_def requested_count_def)
  from call_and_save_success[OF run] obtain textContent kvs js where
    msg: "create_message env (build_prompt body info) = Inr textContent"
    and parsed: "parse_reply env (clean_reply textContent) = Inr (JObj kvs)"
    and arr: "map_of kvs ''posts'' = Some (JArr js)"
    and tr: "transform_posts 0 js = Some ps"
    by blast
  from transform_posts_read[OF tr]
  have len: "length ps = length js"
    and each: "\<forall>i<length js. js ! i \<noteq> JNull \<and> post_index (ps ! i) = 0 + i \<and>
      post_content (ps ! i) = (case js ! i of JObj f \<Rightarrow> map_of f ''content'' | _ \<Rightarrow> None)"
    by simp_all
  have lenr: "length rows = length js" using len by (simp add: rows_def)
  have fields: "\<forall>i<length js.
              post_index (ps ! i) = i \<and>
              post_content (ps ! i) = (case js ! i of JObj f \<Rightarrow> map_of f ''content'' | _ \<Rightarrow> None) \<and>
              dr_status (rows ! i) = Draft \<and>
              dr_business_id (rows ! i) = b_id biz \<and>
              dr_platform (rows ! i) = (case g_platform body of None \<Rightarrow> ''instagram'' | Some pf \<Rightarrow> pf) \<and>
              dr_content (rows ! i) = post_content (ps ! i) \<and>
              dr_hashtags (rows ! i) = post_hashtags (ps ! i) \<and>
              dr_cta (rows ! i) = post_cta (ps ! i) \<and>
              dr_image_prompt (rows ! i) = imagePrompt (ps ! i) \<and>
              dr_best_time_to_post (rows ! i) = bestTimeToPost (ps ! i) \<and>
              dr_estimated_engagement (rows ! i) = estimatedEngagement (ps ! i) \<and>
              dr_generated_at (rows ! i) = now"
  proof (intro allI impI)
    fix i assume i: "i < length js"
    then have "rows ! i = post_to_save (b_id biz) (requested_platform body) now (ps ! i)"
      using len by (simp add: rows_def)
    moreover from each i have "post_index (ps ! i) = i"
      "post_content (ps ! i) = (case js ! i of JObj f \<Rightarrow> map_of f ''content'' | _ \<Rightarrow> None)"
      by simp_all
    ultimately show "post_index (ps ! i) = i \<and>
              post_content (ps ! i) = (case js ! i of JObj f \<Rightarrow> map_of f ''content'' | _ \<Rightarrow> None) \<and>
              dr_status (rows ! i) = Draft \<and>
              dr_business_id (rows ! i) = b_id biz \<and>
              dr_platform (rows ! i) = (case g_platform body of None \<Rightarrow> ''instagram'' | Some pf \<Rightarrow> pf) \<and>
              dr_content (rows ! i) = post_content (ps ! i) \<and>
              dr_hashtags (rows ! i) = post_hashtags (ps ! i) \<and>
              dr_cta (rows ! i) = post_cta (ps ! i) \<and>
              dr_image_prompt (rows ! i) = imagePrompt (ps ! i) \<and>
              dr_best_time_to_post (rows ! i) = bestTimeToPost (ps ! i) \<and>
              dr_estimated_engagement (rows ! i) = estimatedEngagement (ps ! i) \<and>
              dr_generated_at (rows ! i) = now"
      by (simp add: post_to_save_def requested_platform_def)
  qed
  show ?thesis
    by (rule exI[of _ uid], rule exI[of _ biz], rule exI[of _ "build_prompt body info"],
        rule exI[of _ rows], rule exI[of _ textContent], rule exI[of _ kvs], rule exI[of _ js])
       (intro conjI uid biz eff cur asked msg parsed arr len lenr fields saved)
qed

theorem usage_incremented_by_request_witness:
  "postCount five_request = Some 5 \<and> length two_posts_read = 2 \<and>
   month_usage (studio_generator 10) 1 = Some 10 \<and>
   fst (generate_POST (studio_generator 10) 1000 (Some 1) five_request) =
     Generated two_posts_read (Some (map (post_to_save 1 ''twitter'' 1000) two_posts_read)) 15 50 35 \<and>
   map dr_status (map (post_to_save 1 ''twitter'' 1000) two_posts_read) = [Draft, Draft] \<and>
   map dr_content (map (post_to_save 1 ''twitter'' 1000) two_posts_read) =
     [Some (JStr ''Hello''), Some (JStr ''World'')] \<and>
   (\<exists>p. snd (generate_POST (studio_generator 10) 1000 (Some 1) five_request) =
      [LlmCall p, InsertPosts (map (post_to_save 1 ''twitter'' 1000) two_posts_read),
       UpsertUsage 1 15 1000] \<and>
      p_postCount p = 5)"
proof -
  let ?run = "generate_POST (studio_generator 10) 1000 (Some 1) five_request"
  let ?rows = "map (post_to_save 1 ''twitter'' 1000) two_posts_read"
  have f: "fst ?run = Generated two_posts_read (Some ?rows) 15 50 35" by code_simp
  then have r: "?run = (Generated two_posts_read (Some ?rows) 15 50 35, snd ?run)"
    by (metis prod.collapse)
  have c: "postCount five_request = Some 5" by code_simp
  have l: "length two_posts_read = 2" by code_simp
  have m: "month_usage (studio_generator 10) 1 = Some 10" by code_simp
  have st: "map dr_status ?rows = [Draft, Draft]" by code_simp
  have ct: "map dr_content ?rows = [Some (JStr ''Hello''), Some (JStr ''World'')]" by code_simp
  have b: "single (filter (\<lambda>b. b_user_id b = 1) (gen_businesses (studio_generator 10))) = Some starter_business"
    by code_simp
  have i1: "b_id starter_business = 1" by code_simp
  have acc: "insert_accepted (studio_generator 10) rows" for rows
    by (simp add: studio_generator_def)
  from usage_incremented_by_request[OF r]
  obtain uid biz p rows where u1: "Some (1::nat) = Some uid"
    and u2: "single (filter (\<lambda>b. b_user_id b = uid) (gen_businesses (studio_generator 10))) = Some biz"
    and u3: "snd ?run = [LlmCall p, InsertPosts rows, UpsertUsage (b_id biz) 15 1000]"
    and u4: "p_postCount p = (case postCount five_request of None \<Rightarrow> 7 | Some n \<Rightarrow> n)"
    and u5: "Some ?rows = (if insert_accepted (studio_generator 10) rows then Some rows else None)"
    by blast
  from u1 have "uid = 1" by simp
  with u2 b have "biz = starter_business" by simp
  moreover from u5 acc have "rows = ?rows" by simp
  ultimately have e: "snd ?run = [LlmCall p, InsertPosts ?rows, UpsertUsage 1 15 1000]"
    using u3 i1 by simp
  from u4 c have n: "p_postCount p = 5" by simp
  have ex: "\<exists>p. snd ?run = [LlmCall p, InsertPosts ?rows, UpsertUsage 1 15 1000] \<and> p_postCount p = 5"
    by (rule exI[of _ p]) (intro conjI e n)
  show ?thesis by (intro conjI c l m f st ct ex)
qed

text \<open>
  Claim C5 as stated fails on the persistence of the posts: the error of the insertion is
  only logged.  Here the store refuses the insertion of the two posts of the reply; the call
  still answers with the generated posts, nothing is saved, and the usage goes from 10 to 15
  for the five posts requested.
\<close>

theorem refused_insert_counterexample:
  "fst (generate_POST (refusing_generator 10) 1000 (Some 1) five_request) =
     Generated two_posts_read None 15 50 35 \<and>
   savedPosts (fst (generate_POST (refusing_generator 10) 1000 (Some 1) five_request)) = None \<and>
   tl (snd (generate_POST (refusing_generator 10) 1000 (Some 1) five_request)) =
     [InsertPosts (map (post_to_save 1 ''twitter'' 1000) two_posts_read), UpsertUsage 1 15 1000] \<and>
   \<not> insert_accepted (refusing_generator 10) (map (post_to_save 1 ''twitter'' 1000) two_posts_read)"
  by code_simp

end
